theory Spec2Isabelle
  imports Complex_Main "HOL-Library.AList" "HOL-Library.Multiset"
begin

section \<open>Python values used by the stores\<close>

text \<open>
  Python integers are unbounded and are modelled by \<open>int\<close>. Readings of \<^verbatim>\<open>time.time()\<close>
  are seconds since the epoch; they are modelled by \<open>real\<close> and every reading is an explicit
  argument of the operation that takes it. Strings are \<open>string\<close>.
\<close>

definition startswith :: "string \<Rightarrow> string \<Rightarrow> bool" where
  \<comment> \<open>\<^verbatim>\<open>s.startswith(p)\<close>\<close>
  "startswith s p = (take (length p) s = p)"

definition deque_append :: "nat \<Rightarrow> 'a list \<Rightarrow> 'a \<Rightarrow> 'a list" where
  \<comment> \<open>\<^verbatim>\<open>deque(maxlen=n).append(x)\<close>: append on the right, then drop the leftmost element
      when the bound is exceeded.\<close>
  "deque_append maxlen xs x =
     (let ys = xs @ [x] in if maxlen < length ys then tl ys else ys)"

section \<open>MetricsTracker (api/utils.py)\<close>

record metrics_tracker =
  total_requests :: int
  gemini_requests :: int
  local_requests :: int
  fallback_requests :: int
  rate_limited_requests :: int
  latencies :: "int list"

definition MetricsTracker_init :: metrics_tracker where
  "MetricsTracker_init =
     \<lparr>total_requests = 0, gemini_requests = 0, local_requests = 0,
      fallback_requests = 0, rate_limited_requests = 0, latencies = []\<rparr>"

definition record_request :: "metrics_tracker \<Rightarrow> int \<Rightarrow> string \<Rightarrow> metrics_tracker" where
  "record_request m latency_ms source =
     (let m1 = m\<lparr>total_requests := total_requests m + 1\<rparr>;
          m2 = m1\<lparr>latencies := deque_append 1000 (latencies m1) latency_ms\<rparr>
      in if startswith source ''gemini'' then m2\<lparr>gemini_requests := gemini_requests m2 + 1\<rparr>
         else if startswith source ''local'' then m2\<lparr>local_requests := local_requests m2 + 1\<rparr>
         else m2\<lparr>fallback_requests := fallback_requests m2 + 1\<rparr>)"

definition record_rate_limit :: "metrics_tracker \<Rightarrow> metrics_tracker" where
  "record_rate_limit m = m\<lparr>rate_limited_requests := rate_limited_requests m + 1\<rparr>"

record metrics_snapshot =
  snap_total_requests :: int
  snap_gemini_requests :: int
  snap_local_requests :: int
  snap_fallback_requests :: int
  snap_rate_limited_requests :: int
  latency_median_ms :: int
  latency_p95_ms :: int

definition p95_idx :: "nat \<Rightarrow> nat" where
  \<comment> \<open>\<^verbatim>\<open>int(len(sorted_latencies) * 0.95)\<close>, computed exactly: the buffer holds at most
      1000 samples, and on that range the truncated double product is \<open>95 * n div 100\<close>.\<close>
  "p95_idx n = (n * 95) div 100"

definition get_metrics :: "metrics_tracker \<Rightarrow> metrics_snapshot \<times> metrics_tracker" where
  \<comment> \<open>Returns the dictionary and the tracker as the call leaves it.\<close>
  "get_metrics m =
     (let lats = latencies m;
          (median, p95) =
            (if lats \<noteq> [] then
               (let sorted_latencies = sort lats;
                    median = sorted_latencies ! (length sorted_latencies div 2);
                    idx = p95_idx (length sorted_latencies);
                    p95 = sorted_latencies ! (min idx (length sorted_latencies - 1))
                in (median, p95))
             else (0, 0))
      in (\<lparr>snap_total_requests = total_requests m,
           snap_gemini_requests = gemini_requests m,
           snap_local_requests = local_requests m,
           snap_fallback_requests = fallback_requests m,
           snap_rate_limited_requests = rate_limited_requests m,
           latency_median_ms = median,
           latency_p95_ms = p95\<rparr>, m))"

datatype metrics_op = RecordRequest int string | RecordRateLimit | GetMetrics

fun apply_metrics_op :: "metrics_tracker \<Rightarrow> metrics_op \<Rightarrow> metrics_tracker" where
  "apply_metrics_op m (RecordRequest latency_ms source) = record_request m latency_ms source"
| "apply_metrics_op m RecordRateLimit = record_rate_limit m"
| "apply_metrics_op m GetMetrics = snd (get_metrics m)"

definition run_metrics :: "metrics_op list \<Rightarrow> metrics_tracker" where
  \<comment> \<open>The tracker after a sequence of calls on the freshly constructed instance.\<close>
  "run_metrics ops = foldl apply_metrics_op MetricsTracker_init ops"

definition record_latencies :: "int list \<Rightarrow> metrics_tracker" where
  \<comment> \<open>The tracker after recording the given latencies, in order, for source \<^verbatim>\<open>gemini\<close>.\<close>
  "record_latencies ls = run_metrics (map (\<lambda>l. RecordRequest l ''gemini'') ls)"

section \<open>RateLimiter (api/utils.py)\<close>

record rate_limiter =
  calls_per_minute :: int
  clients :: "string \<rightharpoonup> real list"

definition RateLimiter_init :: "int \<Rightarrow> rate_limiter" where
  "RateLimiter_init cpm = \<lparr>calls_per_minute = cpm, clients = Map.empty\<rparr>"

definition window_of :: "rate_limiter \<Rightarrow> string \<Rightarrow> real list" where
  \<comment> \<open>The deque of a client; a client without one gets the empty deque on its first call.\<close>
  "window_of rl client_ip = (case clients rl client_ip of None \<Rightarrow> [] | Some dq \<Rightarrow> dq)"

definition is_allowed :: "rate_limiter \<Rightarrow> real \<Rightarrow> string \<Rightarrow> bool \<times> rate_limiter" where
  \<comment> \<open>\<open>now\<close> is the reading of the clock taken under the lock. The \<^verbatim>\<open>while\<close> loop pops
      from the left while the head is older than the window start.\<close>
  "is_allowed rl now client_ip =
     (let window_start = now - 60;
          dq = dropWhile (\<lambda>t. t < window_start) (window_of rl client_ip)
      in if int (length dq) < calls_per_minute rl
         then (True, rl\<lparr>clients := (clients rl)(client_ip \<mapsto> dq @ [now])\<rparr>)
         else (False, rl\<lparr>clients := (clients rl)(client_ip \<mapsto> dq)\<rparr>))"

fun run_limiter :: "rate_limiter \<Rightarrow> (real \<times> string) list \<Rightarrow> bool list \<times> rate_limiter" where
  "run_limiter rl [] = ([], rl)"
| "run_limiter rl ((now, client_ip) # calls) =
     (let (ok, rl1) = is_allowed rl now client_ip;
          (oks, rl2) = run_limiter rl1 calls
      in (ok # oks, rl2))"

fun admitted :: "string \<Rightarrow> (real \<times> string) list \<Rightarrow> bool list \<Rightarrow> real list" where
  \<comment> \<open>The clock readings of the calls of one client that returned true.\<close>
  "admitted ip ((now, client_ip) # calls) (ok # oks) =
     (if ok \<and> client_ip = ip then now # admitted ip calls oks else admitted ip calls oks)"
| "admitted ip _ _ = []"

definition in_window :: "real \<Rightarrow> real \<Rightarrow> bool" where
  \<comment> \<open>\<open>t\<close> lies in the 60-second window that ends at \<open>T\<close>.\<close>
  "in_window T t = (T - 60 \<le> t \<and> t \<le> T)"

section \<open>Python strings and exceptions\<close>

text \<open>
  Strings are restricted to ASCII: \<open>lower\<close> maps the letters A to Z, and \<open>strip\<close> removes the
  ASCII characters for which \<^verbatim>\<open>str.isspace\<close> holds (tab, line feed, vertical tab, form feed,
  carriage return, the separators 0x1C to 0x1F and the space) from both ends.
\<close>

definition lower_char :: "char \<Rightarrow> char" where
  "lower_char c =
     (case map_of (zip ''ABCDEFGHIJKLMNOPQRSTUVWXYZ'' ''abcdefghijklmnopqrstuvwxyz'') c of
        Some d \<Rightarrow> d
      | None \<Rightarrow> c)"

definition lower :: "string \<Rightarrow> string" where
  "lower s = map lower_char s"

definition is_space :: "char \<Rightarrow> bool" where
  "is_space c = (c \<in> set [CHR 0x09, CHR 0x0A, CHR 0x0B, CHR 0x0C, CHR 0x0D,
                           CHR 0x1C, CHR 0x1D, CHR 0x1E, CHR 0x1F, CHR 0x20])"

definition strip :: "string \<Rightarrow> string" where
  "strip s = rev (dropWhile is_space (rev (dropWhile is_space s)))"

datatype py_exception = ValueError | ProviderError string

section \<open>ResponseCache (api/utils.py)\<close>

text \<open>
  The dictionary \<^verbatim>\<open>self.cache\<close> is an association list in insertion order, the order in
  which \<^verbatim>\<open>min\<close> iterates over its keys: assignment to a present key replaces the value in
  place, assignment to a new key appends, \<^verbatim>\<open>del\<close> removes the entry. The builtin \<^verbatim>\<open>hash\<close>
  is a parameter \<open>py_hash\<close> of the operations.
\<close>

type_synonym cache_entry = "int \<times> (string \<times> real)"

record response_cache =
  max_size :: int
  ttl_seconds :: int
  cache :: "cache_entry list"

definition ResponseCache_init :: "int \<Rightarrow> int \<Rightarrow> response_cache" where
  "ResponseCache_init ms ttl = \<lparr>max_size = ms, ttl_seconds = ttl, cache = []\<rparr>"

definition response_cache_default :: response_cache where
  \<comment> \<open>The global \<^verbatim>\<open>response_cache = ResponseCache()\<close>.\<close>
  "response_cache_default = ResponseCache_init 100 300"

definition make_key :: "(string \<Rightarrow> int) \<Rightarrow> string \<Rightarrow> string \<Rightarrow> int" where
  "make_key py_hash prompt provider =
     (let provider_prefix = (if provider \<noteq> [] then strip (lower provider) else ''default'')
      in py_hash (provider_prefix @ '':'' @ strip (lower prompt)))"

definition cache_get ::
  "(string \<Rightarrow> int) \<Rightarrow> response_cache \<Rightarrow> real \<Rightarrow> string \<Rightarrow> string
     \<Rightarrow> string option \<times> response_cache" where
  "cache_get py_hash c now prompt provider =
     (let key = make_key py_hash prompt provider
      in case map_of (cache c) key of
           None \<Rightarrow> (None, c)
         | Some (response, timestamp) \<Rightarrow>
             if now - timestamp < real_of_int (ttl_seconds c) then (Some response, c)
             else (None, c\<lparr>cache := AList.delete key (cache c)\<rparr>))"

fun min_by_timestamp :: "cache_entry \<Rightarrow> cache_entry list \<Rightarrow> cache_entry" where
  \<comment> \<open>\<^verbatim>\<open>min(..., key=lambda k: self.cache[k][1])\<close> after its first element: a later entry
      replaces the candidate only when its timestamp is strictly smaller.\<close>
  "min_by_timestamp best [] = best"
| "min_by_timestamp best (e # es) =
     min_by_timestamp (if snd (snd e) < snd (snd best) then e else best) es"

definition oldest_key :: "cache_entry list \<Rightarrow> py_exception + int" where
  \<comment> \<open>\<^verbatim>\<open>min\<close> of an empty sequence raises \<^verbatim>\<open>ValueError\<close>.\<close>
  "oldest_key es = (case es of [] \<Rightarrow> Inl ValueError
                    | e # rest \<Rightarrow> Inr (fst (min_by_timestamp e rest)))"

definition cache_set ::
  "(string \<Rightarrow> int) \<Rightarrow> response_cache \<Rightarrow> real \<Rightarrow> string \<Rightarrow> string \<Rightarrow> string
     \<Rightarrow> py_exception + response_cache" where
  "cache_set py_hash c now prompt response provider =
     (let key = make_key py_hash prompt provider
      in if max_size c \<le> int (length (cache c)) then
           (case oldest_key (cache c) of
              Inl e \<Rightarrow> Inl e
            | Inr old \<Rightarrow>
                Inr (c\<lparr>cache := AList.update key (response, now)
                                   (AList.delete old (cache c))\<rparr>))
         else Inr (c\<lparr>cache := AList.update key (response, now) (cache c)\<rparr>))"

datatype cache_op = CacheGet real string string | CacheSet real string string string

fun apply_cache_op :: "(string \<Rightarrow> int) \<Rightarrow> response_cache \<Rightarrow> cache_op \<Rightarrow> response_cache" where
  \<comment> \<open>An exception raised by \<^verbatim>\<open>set\<close> leaves the cache as it was.\<close>
  "apply_cache_op py_hash c (CacheGet now prompt provider) =
     snd (cache_get py_hash c now prompt provider)"
| "apply_cache_op py_hash c (CacheSet now prompt response provider) =
     (case cache_set py_hash c now prompt response provider of
        Inl e \<Rightarrow> c
      | Inr c' \<Rightarrow> c')"

definition run_cache :: "(string \<Rightarrow> int) \<Rightarrow> response_cache \<Rightarrow> cache_op list \<Rightarrow> response_cache" where
  "run_cache py_hash c ops = foldl (apply_cache_op py_hash) c ops"

definition cache_inv :: "response_cache \<Rightarrow> bool" where
  \<comment> \<open>The invariant of the cache: distinct keys, at most \<open>max_size\<close> entries.\<close>
  "cache_inv c = (distinct (map fst (cache c)) \<and> int (length (cache c)) \<le> max_size c
                  \<and> 0 < max_size c)"

section \<open>ConversationStore (api/session\_store.py)\<close>

text \<open>
  A turn is the tuple (role, content, timestamp). \<^verbatim>\<open>self._messages\<close> maps a session
  identifier to its deque of turns, oldest first. The two clock readings of \<^verbatim>\<open>add\<close> (one
  in \<^verbatim>\<open>_purge_expired\<close>, one for the timestamp of the new turn) are separate arguments.
\<close>

type_synonym turn = "string \<times> string \<times> real"

record conversation_store =
  max_messages :: int
  session_ttl_seconds :: int
  messages :: "string \<rightharpoonup> turn list"

definition ConversationStore_init :: "int \<Rightarrow> int \<Rightarrow> conversation_store" where
  "ConversationStore_init mm ttl =
     \<lparr>max_messages = mm, session_ttl_seconds = ttl, messages = Map.empty\<rparr>"

definition conversation_store_default :: conversation_store where
  \<comment> \<open>The global \<^verbatim>\<open>conversation_store = ConversationStore()\<close>.\<close>
  "conversation_store_default = ConversationStore_init 50 3600"

definition session_expired :: "conversation_store \<Rightarrow> real \<Rightarrow> turn list \<Rightarrow> bool" where
  \<comment> \<open>\<^verbatim>\<open>msgs and now - msgs[-1][2] > self.ttl_seconds\<close>\<close>
  "session_expired s now msgs =
     (msgs \<noteq> [] \<and> now - snd (snd (last msgs)) > real_of_int (session_ttl_seconds s))"

definition purge_expired :: "conversation_store \<Rightarrow> real \<Rightarrow> conversation_store" where
  "purge_expired s now =
     s\<lparr>messages := (\<lambda>sid. case messages s sid of
                              None \<Rightarrow> None
                            | Some msgs \<Rightarrow> if session_expired s now msgs then None else Some msgs)\<rparr>"

definition store_add ::
  "conversation_store \<Rightarrow> real \<Rightarrow> real \<Rightarrow> string \<Rightarrow> string \<Rightarrow> string
     \<Rightarrow> py_exception option \<times> conversation_store" where
  \<comment> \<open>The result is the exception raised, if any, and the store as the call leaves it.
      \<^verbatim>\<open>deque(maxlen=n)\<close> raises \<^verbatim>\<open>ValueError\<close> for a negative \<open>n\<close>, after the purge.\<close>
  "store_add s t_purge t_stamp session_id role content =
     (let s1 = purge_expired s t_purge
      in case messages s1 session_id of
           None \<Rightarrow>
             if max_messages s1 < 0 then (Some ValueError, s1)
             else (None, s1\<lparr>messages := (messages s1)(session_id \<mapsto>
                     deque_append (nat (max_messages s1)) [] (role, content, t_stamp))\<rparr>)
         | Some msgs \<Rightarrow>
             (None, s1\<lparr>messages := (messages s1)(session_id \<mapsto>
                     deque_append (nat (max_messages s1)) msgs (role, content, t_stamp))\<rparr>))"

definition turn_dict :: "turn \<Rightarrow> string \<times> string" where
  \<comment> \<open>\<^verbatim>\<open>{"role": role, "content": content}\<close>\<close>
  "turn_dict t = (fst t, fst (snd t))"

definition store_get ::
  "conversation_store \<Rightarrow> real \<Rightarrow> string \<Rightarrow> (string \<times> string) list \<times> conversation_store" where
  "store_get s now session_id =
     (let s1 = purge_expired s now
      in case messages s1 session_id of
           None \<Rightarrow> ([], s1)
         | Some msgs \<Rightarrow> (map turn_dict msgs, s1))"

datatype store_op = StoreAdd real real string string string | StoreGet real string

fun apply_store_op :: "conversation_store \<Rightarrow> store_op \<Rightarrow> conversation_store" where
  "apply_store_op s (StoreAdd t_purge t_stamp session_id role content) =
     snd (store_add s t_purge t_stamp session_id role content)"
| "apply_store_op s (StoreGet now session_id) = snd (store_get s now session_id)"

definition run_store :: "conversation_store \<Rightarrow> store_op list \<Rightarrow> conversation_store" where
  "run_store s ops = foldl apply_store_op s ops"

definition store_inv :: "conversation_store \<Rightarrow> bool" where
  \<comment> \<open>The invariant of the store: no session holds more than \<open>max_messages\<close> turns.\<close>
  "store_inv s = (\<forall>sid msgs. messages s sid = Some msgs \<longrightarrow> int (length msgs) \<le> max_messages s)"

section \<open>Providers and the fallback responder (api/utils.py)\<close>

text \<open>
  The settings the core reads, and the collaborators outside it: the remote and the local
  model (one exchange each, returning the text or raising), their streaming variants
  (the fragments produced and how the iteration ends) and \<^verbatim>\<open>random.choice\<close>.
\<close>

record settings =
  default_llm_provider :: string
  gemini_api_key :: string
  env_gemini_api_key :: string

record llm_env =
  genai_generate :: "string \<Rightarrow> string \<Rightarrow> py_exception + string"
  local_chat :: "string \<Rightarrow> py_exception + string"
  genai_stream :: "string \<Rightarrow> string \<Rightarrow> string list \<times> py_exception option"
  local_chat_stream :: "string \<Rightarrow> string list \<times> py_exception option"
  random_choice :: "string list \<Rightarrow> string"

definition normalize_provider :: "settings \<Rightarrow> string \<Rightarrow> string" where
  "normalize_provider st provider =
     (let provider_normalized =
            lower (if provider \<noteq> [] then provider else default_llm_provider st)
      in if provider_normalized \<notin> set [''gemini'', ''local''] then ''gemini''
         else provider_normalized)"

definition select_api_key :: "settings \<Rightarrow> string \<Rightarrow> string" where
  \<comment> \<open>\<^verbatim>\<open>user_api_key or settings.GEMINI_API_KEY or os.environ.get('GEMINI_API_KEY', '')\<close>\<close>
  "select_api_key st user_api_key =
     (if user_api_key \<noteq> [] then user_api_key
      else if gemini_api_key st \<noteq> [] then gemini_api_key st
      else env_gemini_api_key st)"

definition get_gemini_response ::
  "settings \<Rightarrow> llm_env \<Rightarrow> string \<Rightarrow> string \<Rightarrow> py_exception + (string \<times> string)" where
  "get_gemini_response st env user_text user_api_key =
     (let api_key = select_api_key st user_api_key
      in if api_key = [] then Inl (ProviderError ''No Gemini API key configured'')
         else (case genai_generate env api_key user_text of
                 Inl e \<Rightarrow> Inl e
               | Inr text \<Rightarrow> Inr (strip text, ''gemini'')))"

definition get_local_response :: "llm_env \<Rightarrow> string \<Rightarrow> py_exception + string" where
  "get_local_response env user_text =
     (case local_chat env user_text of
        Inl e \<Rightarrow> Inl e
      | Inr message \<Rightarrow> if message = [] then Inl ValueError else Inr (strip message))"

definition truthy :: "string option \<Rightarrow> string option" where
  \<comment> \<open>The value tested by \<^verbatim>\<open>if cached:\<close>; \<^verbatim>\<open>None\<close> and the empty string are false.\<close>
  "truthy cached = (case cached of None \<Rightarrow> None | Some r \<Rightarrow> if r \<noteq> [] then Some r else None)"

definition call_provider ::
  "settings \<Rightarrow> llm_env \<Rightarrow> string \<Rightarrow> string \<Rightarrow> string \<Rightarrow> py_exception + (string \<times> string)" where
  \<comment> \<open>The branch \<^verbatim>\<open>if provider == 'local': ... else: ...\<close> of \<^verbatim>\<open>get_llm_response\<close>.\<close>
  "call_provider st env provider user_text user_api_key =
     (if provider = ''local''
      then (case get_local_response env user_text of
              Inl e \<Rightarrow> Inl e
            | Inr response_text \<Rightarrow> Inr (response_text, ''local''))
      else get_gemini_response st env user_text user_api_key)"

definition get_llm_response ::
  "settings \<Rightarrow> llm_env \<Rightarrow> (string \<Rightarrow> int) \<Rightarrow> response_cache \<Rightarrow> real \<Rightarrow> real
     \<Rightarrow> string \<Rightarrow> string \<Rightarrow> string
     \<Rightarrow> (py_exception + (string \<times> string)) \<times> response_cache" where
  \<comment> \<open>\<open>t_get\<close> and \<open>t_set\<close> are the clock readings of the cache's \<open>get\<close> and \<open>set\<close>. The
      result is the returned pair or the exception raised, and the cache.\<close>
  "get_llm_response st env py_hash c t_get t_set user_text provider0 user_api_key =
     (let provider = normalize_provider st provider0;
          (cached, c1) = cache_get py_hash c t_get user_text provider
      in case truthy cached of
           Some r \<Rightarrow> (Inr (r, provider @ ''-cache''), c1)
         | None \<Rightarrow>
             (case call_provider st env provider user_text user_api_key of
                Inl e \<Rightarrow> (Inl e, c1)
              | Inr (response_text, source) \<Rightarrow>
                  (case cache_set py_hash c1 t_set user_text response_text provider of
                     Inl e \<Rightarrow> (Inl e, c1)
                   | Inr c2 \<Rightarrow> (Inr (response_text, source), c2))))"

definition FALLBACK_RESPONSES :: "string list" where
  "FALLBACK_RESPONSES =
     [''I hear you, and I appreciate you sharing that with me. It sounds like you're going through something important. Would you like to tell me more about how that makes you feel?'',
      ''Thank you for opening up. What you're experiencing sounds meaningful. Can you help me understand a bit more about what's on your mind?'',
      ''I'm here to listen. It takes courage to express yourself like this. What feels most important for you to explore right now?'',
      ''That sounds like it weighs on you. I want you to know that your feelings are valid. What would feel most helpful to discuss?'',
      ''I appreciate your trust in sharing this with me. Sometimes talking through our thoughts can help us see things more clearly. What else is coming up for you?'',
      ''It sounds like there's a lot going on for you. Take your time - I'm here to listen without judgment. What feels most pressing?'']"

definition GREETING_RESPONSES :: "string list" where
  "GREETING_RESPONSES =
     [''Hello! I'm glad you're here. I'm here to listen and support you. What's on your mind today?'',
      ''Hi there! Thank you for reaching out. This is a safe space to share whatever you'd like. How are you feeling?'',
      ''Welcome! I'm here to listen. Whatever you're experiencing, you don't have to face it alone. What would you like to talk about?'']"

definition ACKNOWLEDGMENT_RESPONSES :: "string list" where
  "ACKNOWLEDGMENT_RESPONSES =
     [''I understand. Please, continue whenever you're ready.'',
      ''I see. Take your time - there's no rush here.'',
      ''Okay, I'm following you. What comes to mind next?'']"

fun contains :: "string \<Rightarrow> string \<Rightarrow> bool" where
  \<comment> \<open>\<^verbatim>\<open>g in s\<close> for strings\<close>
  "contains [] g = (g = [])"
| "contains (c # cs) g = (startswith (c # cs) g \<or> contains cs g)"

fun split_whitespace :: "string \<Rightarrow> string list" where
  \<comment> \<open>\<^verbatim>\<open>s.split()\<close>: the maximal runs of characters that are not whitespace\<close>
  "split_whitespace [] = []"
| "split_whitespace (c # cs) =
     (if is_space c then split_whitespace cs
      else (case cs of
              [] \<Rightarrow> [[c]]
            | d # _ \<Rightarrow>
                if is_space d then [c] # split_whitespace cs
                else (case split_whitespace cs of
                        [] \<Rightarrow> [[c]]
                      | w # ws \<Rightarrow> (c # w) # ws)))"

definition get_fallback_response :: "llm_env \<Rightarrow> string \<Rightarrow> string" where
  "get_fallback_response env user_text =
     (let user_lower = strip (lower user_text);
          greetings = [''hello'', ''hi'', ''hey'', ''good morning'', ''good afternoon'',
                       ''good evening'']
      in if list_ex (\<lambda>g. contains user_lower g) greetings
         then random_choice env GREETING_RESPONSES
         else if length (split_whitespace user_text) \<le> 3
         then random_choice env ACKNOWLEDGMENT_RESPONSES
         else random_choice env FALLBACK_RESPONSES)"

section \<open>DialogueView.post (api/views.py)\<close>

record dialogue_request =
  req_text :: string
  req_api_key :: string
  req_provider :: "string option"
  req_session_id :: "string option"
  http_x_forwarded_for :: "string option"
  remote_addr :: "string option"

record app_state =
  rate_limiter_st :: rate_limiter
  metrics_tracker_st :: metrics_tracker
  response_cache_st :: response_cache
  conversation_store_st :: conversation_store

text \<open>The clock readings of one request, in the order in which the handler takes them;
  \<open>uuid_hex\<close> is the value of \<^verbatim>\<open>uuid.uuid4().hex\<close>.\<close>

record post_clock =
  t_start :: real
  t_allowed :: real
  t_cache_get :: real
  t_cache_set :: real
  t_end :: real
  t_user_purge :: real
  t_user_stamp :: real
  t_assistant_purge :: real
  t_assistant_stamp :: real
  uuid_hex :: string

datatype http_response =
    Response200 string string int string
  | Response400 string
  | Response429 string
  | Unhandled py_exception

definition py_int :: "real \<Rightarrow> int" where
  \<comment> \<open>\<^verbatim>\<open>int(x)\<close> for a float: truncation towards zero\<close>
  "py_int x = (if 0 \<le> x then \<lfloor>x\<rfloor> else \<lceil>x\<rceil>)"

definition get_client_ip :: "dialogue_request \<Rightarrow> string" where
  "get_client_ip req =
     (case http_x_forwarded_for req of
        Some x_forwarded_for \<Rightarrow>
          if x_forwarded_for \<noteq> [] then strip (takeWhile (\<lambda>ch. ch \<noteq> CHR '','') x_forwarded_for)
          else (case remote_addr req of None \<Rightarrow> ''unknown'' | Some a \<Rightarrow> a)
      | None \<Rightarrow> (case remote_addr req of None \<Rightarrow> ''unknown'' | Some a \<Rightarrow> a))"

definition request_provider :: "settings \<Rightarrow> dialogue_request \<Rightarrow> string" where
  \<comment> \<open>\<^verbatim>\<open>request.data.get('provider', settings.DEFAULT_LLM_PROVIDER)\<close>\<close>
  "request_provider st req =
     (case req_provider req of None \<Rightarrow> default_llm_provider st | Some p \<Rightarrow> p)"

definition request_session_id :: "post_clock \<Rightarrow> dialogue_request \<Rightarrow> string" where
  \<comment> \<open>\<^verbatim>\<open>request.data.get('session_id') or uuid.uuid4().hex\<close>\<close>
  "request_session_id clk req =
     (case req_session_id req of
        None \<Rightarrow> uuid_hex clk
      | Some sid \<Rightarrow> if sid \<noteq> [] then sid else uuid_hex clk)"

definition post ::
  "settings \<Rightarrow> llm_env \<Rightarrow> (string \<Rightarrow> int) \<Rightarrow> post_clock \<Rightarrow> app_state \<Rightarrow> dialogue_request
     \<Rightarrow> http_response \<times> app_state" where
  "post st env py_hash clk w req =
     (let user_text = strip (req_text req);
          user_api_key = req_api_key req;
          provider = request_provider st req;
          session_id = request_session_id clk req
      in if user_text = [] then (Response400 ''Text field is required'', w)
         else
           (let client_ip = get_client_ip req;
                (allowed, rl1) = is_allowed (rate_limiter_st w) (t_allowed clk) client_ip;
                w1 = w\<lparr>rate_limiter_st := rl1\<rparr>
            in if \<not> allowed then
                 (Response429 ''Rate limit exceeded. Please wait before sending another message.'',
                  w1\<lparr>metrics_tracker_st := record_rate_limit (metrics_tracker_st w1)\<rparr>)
               else
                 (let (result, c1) =
                        get_llm_response st env py_hash (response_cache_st w1)
                          (t_cache_get clk) (t_cache_set clk) user_text provider user_api_key;
                      w2 = w1\<lparr>response_cache_st := c1\<rparr>;
                      (response_text, source) =
                        (case result of
                           Inl e \<Rightarrow> (get_fallback_response env user_text, ''fallback'')
                         | Inr rs \<Rightarrow> rs);
                      latency_ms = py_int ((t_end clk - t_start clk) * 1000);
                      w3 = w2\<lparr>metrics_tracker_st :=
                               record_request (metrics_tracker_st w2) latency_ms source\<rparr>;
                      (e1, s1) = store_add (conversation_store_st w3) (t_user_purge clk)
                                   (t_user_stamp clk) session_id ''user'' user_text;
                      w4 = w3\<lparr>conversation_store_st := s1\<rparr>
                  in case e1 of
                       Some e \<Rightarrow> (Unhandled e, w4)
                     | None \<Rightarrow>
                         (let (e2, s2) = store_add (conversation_store_st w4)
                                (t_assistant_purge clk) (t_assistant_stamp clk)
                                session_id ''assistant'' response_text;
                              w5 = w4\<lparr>conversation_store_st := s2\<rparr>
                          in case e2 of
                               Some e \<Rightarrow> (Unhandled e, w5)
                             | None \<Rightarrow>
                                 (Response200 response_text source latency_ms session_id, w5)))))"

definition app_state_init :: "int \<Rightarrow> app_state" where
  \<comment> \<open>The module-level instances at start-up; the rate limit comes from the settings.\<close>
  "app_state_init cpm =
     \<lparr>rate_limiter_st = RateLimiter_init cpm,
      metrics_tracker_st = MetricsTracker_init,
      response_cache_st = response_cache_default,
      conversation_store_st = conversation_store_default\<rparr>"

section \<open>Example inputs\<close>

definition length_hash :: "string \<Rightarrow> int" where
  "length_hash s = int (length s)"

definition settings_without_key :: settings where
  "settings_without_key =
     \<lparr>default_llm_provider = ''gemini'', gemini_api_key = [], env_gemini_api_key = []\<rparr>"

definition example_env :: llm_env where
  \<comment> \<open>The remote model answers, the local model is down, and \<^verbatim>\<open>random.choice\<close> takes the
      first template.\<close>
  "example_env =
     \<lparr>genai_generate = (\<lambda>api_key user_text. Inr ''  I hear you.  ''),
      local_chat = (\<lambda>user_text. Inl (ProviderError ''connection refused'')),
      genai_stream = (\<lambda>user_text api_key. ([''Hel'', ''lo'', '' wor'', ''ld''], None)),
      local_chat_stream = (\<lambda>user_text. ([''Hel''], Some (ProviderError ''connection reset''))),
      random_choice = hd\<rparr>"

definition example_clock :: post_clock where
  "example_clock =
     \<lparr>t_start = 100, t_allowed = 100.1, t_cache_get = 100.2, t_cache_set = 101, t_end = 101.25,
      t_user_purge = 101.3, t_user_stamp = 101.3, t_assistant_purge = 101.4,
      t_assistant_stamp = 101.4, uuid_hex = ''0f8fad5bd9cb469fa16570867728950e''\<rparr>"

definition example_request :: dialogue_request where
  "example_request =
     \<lparr>req_text = '' I feel sad today '', req_api_key = [], req_provider = None,
      req_session_id = None, http_x_forwarded_for = None, remote_addr = Some ''10.0.0.1''\<rparr>"

section \<open>Streaming responders (api/utils.py)\<close>

text \<open>
  A generator is modelled by what a full iteration observes: the fragments it yields, in
  order, and the exception that ends the iteration, if any.
\<close>

type_synonym fragment_stream = "string list \<times> py_exception option"

definition get_gemini_streaming_response :: "llm_env \<Rightarrow> string \<Rightarrow> string \<Rightarrow> fragment_stream" where
  \<comment> \<open>\<^verbatim>\<open>if chunk.text: yield chunk.text\<close>\<close>
  "get_gemini_streaming_response env user_text api_key =
     (let (chunks, outcome) = genai_stream env user_text api_key
      in (filter (\<lambda>chunk_text. chunk_text \<noteq> []) chunks, outcome))"

definition get_local_streaming_response :: "llm_env \<Rightarrow> string \<Rightarrow> fragment_stream" where
  \<comment> \<open>\<^verbatim>\<open>if token: yield token\<close>\<close>
  "get_local_streaming_response env user_text =
     (let (tokens, outcome) = local_chat_stream env user_text
      in (filter (\<lambda>token. token \<noteq> []) tokens, outcome))"

definition get_llm_streaming_response ::
  "settings \<Rightarrow> llm_env \<Rightarrow> string \<Rightarrow> string \<Rightarrow> string \<Rightarrow> fragment_stream" where
  "get_llm_streaming_response st env user_text provider0 api_key =
     (let provider = normalize_provider st provider0
      in if provider = ''local'' then get_local_streaming_response env user_text
         else get_gemini_streaming_response env user_text api_key)"

section \<open>StreamConsumer (api/consumers.py)\<close>

text \<open>
  The events sent to the client are a list, in the order of the \<^verbatim>\<open>send\<close> calls. The worker
  thread of \<^verbatim>\<open>produce\<close> and the event loop meet only at the first-in-first-out queue, so
  the exchange is modelled by the queue's contents: every fragment in the order produced,
  then the sentinel \<^verbatim>\<open>None\<close> that the \<^verbatim>\<open>finally\<close> clause puts. The consumer loop on a queue
  without sentinel waits forever; that is the result \<open>None\<close> of the functions below.
\<close>

datatype error_text = Literal string | Str py_exception

datatype event =
    Connected string
  | Start string
  | Token string
  | Done string
  | Error error_text

record consumer_state =
  sent :: "event list"
  conv_store :: conversation_store

definition send :: "consumer_state \<Rightarrow> event \<Rightarrow> consumer_state" where
  "send cs ev = cs\<lparr>sent := sent cs @ [ev]\<rparr>"

definition connect :: "consumer_state \<Rightarrow> consumer_state" where
  "connect cs = send cs (Connected ''Connected to AI Therapist stream'')"

record ws_request =
  ws_text :: string
  ws_api_key :: string
  ws_provider :: "string option"
  ws_session_id :: "string option"

datatype ws_message = InvalidJSON | Payload ws_request

text \<open>The clock readings of the two \<^verbatim>\<open>conversation_store.add\<close> calls of the provider path
  and of the fallback path, and the value of \<^verbatim>\<open>uuid.uuid4().hex\<close>.\<close>

record stream_clock =
  t_llm_user_purge :: real
  t_llm_user_stamp :: real
  t_llm_assistant_purge :: real
  t_llm_assistant_stamp :: real
  t_fb_user_purge :: real
  t_fb_user_stamp :: real
  t_fb_assistant_purge :: real
  t_fb_assistant_stamp :: real
  ws_uuid_hex :: string

definition produce :: "fragment_stream \<Rightarrow> string option list \<times> py_exception option" where
  \<comment> \<open>The queue after the worker has run, and the outcome of its future.\<close>
  "produce gen = (map Some (fst gen) @ [None], snd gen)"

fun consume_queue ::
  "string option list \<Rightarrow> consumer_state \<Rightarrow> string list \<Rightarrow> (consumer_state \<times> string list) option" where
  \<comment> \<open>The \<^verbatim>\<open>while True\<close> loop: get, stop at the sentinel, else collect and send a token.\<close>
  "consume_queue [] cs collected = None"
| "consume_queue (None # queue) cs collected = Some (cs, collected)"
| "consume_queue (Some chunk # queue) cs collected =
     consume_queue queue (send cs (Token chunk)) (collected @ [chunk])"

definition persist_history ::
  "conversation_store \<Rightarrow> real \<Rightarrow> real \<Rightarrow> real \<Rightarrow> real \<Rightarrow> string \<Rightarrow> string \<Rightarrow> string
     \<Rightarrow> py_exception option \<times> conversation_store" where
  \<comment> \<open>\<^verbatim>\<open>if session_id:\<close> add the user turn, then the assistant turn.\<close>
  "persist_history s tup tus tap tas session_id user_text response =
     (if session_id \<noteq> [] then
        (case store_add s tup tus session_id ''user'' user_text of
           (Some e, s1) \<Rightarrow> (Some e, s1)
         | (None, s1) \<Rightarrow> store_add s1 tap tas session_id ''assistant'' response)
      else (None, s))"

definition stream_llm_response ::
  "settings \<Rightarrow> llm_env \<Rightarrow> consumer_state \<Rightarrow> stream_clock \<Rightarrow> string \<Rightarrow> string \<Rightarrow> string \<Rightarrow> string
     \<Rightarrow> (py_exception option \<times> consumer_state) option" where
  "stream_llm_response st env cs clk user_text provider api_key session_id =
     (let cs1 = send cs (Start provider);
          (queue, outcome) =
            produce (get_llm_streaming_response st env user_text provider api_key)
      in case consume_queue queue cs1 [] of
           None \<Rightarrow> None
         | Some (cs2, collected) \<Rightarrow>
             (case outcome of
                Some e \<Rightarrow> Some (Some e, cs2)
              | None \<Rightarrow>
                  (let cs3 = send cs2 (Done provider);
                       full_response = concat collected;
                       (err, s1) = persist_history (conv_store cs3)
                         (t_llm_user_purge clk) (t_llm_user_stamp clk)
                         (t_llm_assistant_purge clk) (t_llm_assistant_stamp clk)
                         session_id user_text full_response
                   in Some (err, cs3\<lparr>conv_store := s1\<rparr>))))"

fun split_on_space :: "string \<Rightarrow> string list" where
  \<comment> \<open>\<^verbatim>\<open>response.split(' ')\<close>\<close>
  "split_on_space [] = [[]]"
| "split_on_space (c # cs) =
     (if c = CHR '' '' then [] # split_on_space cs
      else (case split_on_space cs of
              [] \<Rightarrow> [[c]]
            | w # ws \<Rightarrow> (c # w) # ws))"

fun paced_tokens :: "string list \<Rightarrow> string list" where
  \<comment> \<open>\<^verbatim>\<open>word + (' ' if i < len(words) - 1 else '')\<close> for each word\<close>
  "paced_tokens [] = []"
| "paced_tokens [word] = [word]"
| "paced_tokens (word # words) = (word @ '' '') # paced_tokens words"

definition stream_fallback_response ::
  "llm_env \<Rightarrow> consumer_state \<Rightarrow> stream_clock \<Rightarrow> string \<Rightarrow> string
     \<Rightarrow> py_exception option \<times> consumer_state" where
  "stream_fallback_response env cs clk user_text session_id =
     (let response = get_fallback_response env user_text;
          cs1 = send cs (Start ''fallback'');
          words = split_on_space response;
          cs2 = foldl send cs1 (map Token (paced_tokens words));
          cs3 = send cs2 (Done ''fallback'');
          (err, s1) = persist_history (conv_store cs3)
            (t_fb_user_purge clk) (t_fb_user_stamp clk)
            (t_fb_assistant_purge clk) (t_fb_assistant_stamp clk)
            session_id user_text response
      in (err, cs3\<lparr>conv_store := s1\<rparr>))"

definition stream_response ::
  "settings \<Rightarrow> llm_env \<Rightarrow> consumer_state \<Rightarrow> stream_clock \<Rightarrow> string \<Rightarrow> string \<Rightarrow> string \<Rightarrow> string
     \<Rightarrow> (py_exception option \<times> consumer_state) option" where
  "stream_response st env cs clk user_text provider0 user_api_key session_id =
     (let provider = normalize_provider st provider0;
          api_key = select_api_key st user_api_key
      in case stream_llm_response st env cs clk user_text provider api_key session_id of
           None \<Rightarrow> None
         | Some (None, cs1) \<Rightarrow> Some (None, cs1)
         | Some (Some e, cs1) \<Rightarrow>
             Some (stream_fallback_response env cs1 clk user_text session_id))"

definition ws_request_provider :: "settings \<Rightarrow> ws_request \<Rightarrow> string" where
  \<comment> \<open>\<^verbatim>\<open>data.get('provider', settings.DEFAULT_LLM_PROVIDER)\<close>\<close>
  "ws_request_provider st data =
     (case ws_provider data of None \<Rightarrow> default_llm_provider st | Some p \<Rightarrow> p)"

definition ws_request_session_id :: "stream_clock \<Rightarrow> ws_request \<Rightarrow> string" where
  \<comment> \<open>\<^verbatim>\<open>data.get('session_id') or uuid.uuid4().hex\<close>\<close>
  "ws_request_session_id clk data =
     (case ws_session_id data of
        None \<Rightarrow> ws_uuid_hex clk
      | Some sid \<Rightarrow> if sid \<noteq> [] then sid else ws_uuid_hex clk)"

definition receive ::
  "settings \<Rightarrow> llm_env \<Rightarrow> consumer_state \<Rightarrow> stream_clock \<Rightarrow> ws_message
     \<Rightarrow> consumer_state option" where
  "receive st env cs clk text_data =
     (case text_data of
        InvalidJSON \<Rightarrow> Some (send cs (Error (Literal ''Invalid JSON format'')))
      | Payload data \<Rightarrow>
          (let user_text = strip (ws_text data);
               user_api_key = ws_api_key data;
               provider = ws_request_provider st data;
               session_id = ws_request_session_id clk data
           in if user_text = [] then
                Some (send cs (Error (Literal ''Text field is required'')))
              else
                (case stream_response st env cs clk user_text provider user_api_key
                        session_id of
                   None \<Rightarrow> None
                 | Some (None, cs1) \<Rightarrow> Some cs1
                 | Some (Some e, cs1) \<Rightarrow> Some (send cs1 (Error (Str e))))))"

definition emitted :: "consumer_state \<Rightarrow> consumer_state option \<Rightarrow> event list" where
  \<comment> \<open>The events sent during an exchange that started in \<open>cs\<close>.\<close>
  "emitted cs r = (case r of None \<Rightarrow> [] | Some cs1 \<Rightarrow> drop (length (sent cs)) (sent cs1))"

fun is_start :: "event \<Rightarrow> bool" where
  "is_start (Start source) = True"
| "is_start ev = False"

fun is_done :: "event \<Rightarrow> bool" where
  "is_done (Done source) = True"
| "is_done ev = False"

fun is_error :: "event \<Rightarrow> bool" where
  "is_error (Error message) = True"
| "is_error ev = False"

definition example_stream_clock :: stream_clock where
  "example_stream_clock =
     \<lparr>t_llm_user_purge = 200, t_llm_user_stamp = 200, t_llm_assistant_purge = 200.1,
      t_llm_assistant_stamp = 200.1, t_fb_user_purge = 201, t_fb_user_stamp = 201,
      t_fb_assistant_purge = 201.1, t_fb_assistant_stamp = 201.1,
      ws_uuid_hex = ''7c9e6679742540de944be07fc1f90ae7''\<rparr>"

definition example_ws_request :: ws_request where
  "example_ws_request =
     \<lparr>ws_text = ''I feel sad today'', ws_api_key = ''user-key'', ws_provider = None,
      ws_session_id = Some ''session-1''\<rparr>"

definition consumer_state_init :: consumer_state where
  "consumer_state_init = \<lparr>sent = [], conv_store = conversation_store_default\<rparr>"

section \<open>Properties of MetricsTracker\<close>

lemma record_request_total:
  "total_requests (record_request m l s) = total_requests m + 1"
  by (simp add: record_request_def Let_def)

lemma record_request_rate_limited:
  "rate_limited_requests (record_request m l s) = rate_limited_requests m"
  by (simp add: record_request_def Let_def)

lemma record_request_gemini:
  "gemini_requests (record_request m l s) =
     (if startswith s ''gemini'' then gemini_requests m + 1 else gemini_requests m)"
  by (simp add: record_request_def Let_def)

lemma record_request_local:
  "local_requests (record_request m l s) =
     (if \<not> startswith s ''gemini'' \<and> startswith s ''local'' then local_requests m + 1
      else local_requests m)"
  by (simp add: record_request_def Let_def)

lemma record_request_fallback:
  "fallback_requests (record_request m l s) =
     (if \<not> startswith s ''gemini'' \<and> \<not> startswith s ''local'' then fallback_requests m + 1
      else fallback_requests m)"
  by (simp add: record_request_def Let_def)

lemmas record_request_counters =
  record_request_total record_request_rate_limited record_request_gemini
  record_request_local record_request_fallback

lemma get_metrics_state: "snd (get_metrics m) = m"
  by (simp add: get_metrics_def Let_def split: prod.splits)

text \<open>
  C1, as stated, at the cache-hit tag \<^verbatim>\<open>gemini-cache\<close>: the tag starts with \<^verbatim>\<open>gemini\<close>, so
  the call increments the gemini counter and leaves the fallback counter alone.
\<close>

theorem record_request_cache_tag_counterexample:
  "fallback_requests (record_request MetricsTracker_init 5 ''gemini-cache'')
     \<noteq> fallback_requests MetricsTracker_init + 1
   \<and> gemini_requests (record_request MetricsTracker_init 5 ''gemini-cache'')
     = gemini_requests MetricsTracker_init + 1"
  by (simp add: record_request_counters startswith_def MetricsTracker_init_def)

text \<open>
  C1 (amended): every call to \<open>record_request\<close> classifies the source by prefix, in this
  order: a source starting with \<^verbatim>\<open>gemini\<close> increments the gemini counter only; otherwise a
  source starting with \<^verbatim>\<open>local\<close> increments the local counter only; any other source (such
  as \<^verbatim>\<open>fallback\<close>) increments the fallback counter only. The cache-hit tags
  \<^verbatim>\<open>gemini-cache\<close> and \<^verbatim>\<open>local-cache\<close> start with their provider's prefix and are counted
  under that provider. Exactly one of the three classified counters changes per call.
\<close>

theorem record_request_classification:
  "(startswith source ''gemini'' \<longrightarrow>
      gemini_requests (record_request m latency_ms source) = gemini_requests m + 1
      \<and> local_requests (record_request m latency_ms source) = local_requests m
      \<and> fallback_requests (record_request m latency_ms source) = fallback_requests m)
   \<and> (\<not> startswith source ''gemini'' \<and> startswith source ''local'' \<longrightarrow>
      gemini_requests (record_request m latency_ms source) = gemini_requests m
      \<and> local_requests (record_request m latency_ms source) = local_requests m + 1
      \<and> fallback_requests (record_request m latency_ms source) = fallback_requests m)
   \<and> (\<not> startswith source ''gemini'' \<and> \<not> startswith source ''local'' \<longrightarrow>
      gemini_requests (record_request m latency_ms source) = gemini_requests m
      \<and> local_requests (record_request m latency_ms source) = local_requests m
      \<and> fallback_requests (record_request m latency_ms source) = fallback_requests m + 1)
   \<and> startswith ''gemini-cache'' ''gemini'' \<and> startswith ''local-cache'' ''local''
   \<and> \<not> startswith ''fallback'' ''gemini'' \<and> \<not> startswith ''fallback'' ''local''"
  by (simp add: record_request_counters) (simp add: startswith_def)

theorem record_request_classification_witness:
  "gemini_requests (record_request MetricsTracker_init 12 ''gemini'') = 1
   \<and> gemini_requests (record_request MetricsTracker_init 12 ''gemini-cache'') = 1
   \<and> local_requests (record_request MetricsTracker_init 12 ''local-cache'') = 1
   \<and> fallback_requests (record_request MetricsTracker_init 12 ''fallback'') = 1
   \<and> gemini_requests (record_request MetricsTracker_init 12 ''fallback'') = 0
   \<and> local_requests (record_request MetricsTracker_init 12 ''fallback'') = 0"
  using record_request_classification [of "''gemini''" MetricsTracker_init 12]
    record_request_classification [of "''gemini-cache''" MetricsTracker_init 12]
    record_request_classification [of "''local-cache''" MetricsTracker_init 12]
    record_request_classification [of "''fallback''" MetricsTracker_init 12]
  by (simp add: startswith_def MetricsTracker_init_def)

lemma apply_metrics_op_sum:
  "total_requests (apply_metrics_op m op) - (gemini_requests (apply_metrics_op m op) + local_requests (apply_metrics_op m op) + fallback_requests (apply_metrics_op m op))
   = total_requests m - (gemini_requests m + local_requests m + fallback_requests m)"
  by (cases op) (simp_all add: record_request_counters record_rate_limit_def get_metrics_state)

lemma foldl_metrics_sum:
  "total_requests (foldl apply_metrics_op m ops) - (gemini_requests (foldl apply_metrics_op m ops) + local_requests (foldl apply_metrics_op m ops) + fallback_requests (foldl apply_metrics_op m ops))
   = total_requests m - (gemini_requests m + local_requests m + fallback_requests m)"
  by (induction ops arbitrary: m) (simp_all add: apply_metrics_op_sum)

lemma apply_metrics_op_mono:
  "total_requests m \<le> total_requests (apply_metrics_op m op)
   \<and> gemini_requests m \<le> gemini_requests (apply_metrics_op m op)
   \<and> local_requests m \<le> local_requests (apply_metrics_op m op)
   \<and> fallback_requests m \<le> fallback_requests (apply_metrics_op m op)
   \<and> rate_limited_requests m \<le> rate_limited_requests (apply_metrics_op m op)"
  by (cases op) (simp_all add: record_request_counters record_rate_limit_def get_metrics_state)

lemma foldl_metrics_mono:
  "total_requests m \<le> total_requests (foldl apply_metrics_op m ops)
   \<and> gemini_requests m \<le> gemini_requests (foldl apply_metrics_op m ops)
   \<and> local_requests m \<le> local_requests (foldl apply_metrics_op m ops)
   \<and> fallback_requests m \<le> fallback_requests (foldl apply_metrics_op m ops)
   \<and> rate_limited_requests m \<le> rate_limited_requests (foldl apply_metrics_op m ops)"
proof (induction ops arbitrary: m)
  case Nil
  show ?case by simp
next
  case (Cons op ops)
  from apply_metrics_op_mono [of m op] Cons.IH [of "apply_metrics_op m op"]
  show ?case by (simp del: apply_metrics_op.simps)
qed

text \<open>
  C10: after every sequence of operations on a fresh tracker, \<open>total_requests\<close> is the sum
  of the three classified counters, the five counters are non-negative, and no counter
  decreases when the sequence is extended. \<open>record_request\<close> adds one to the total and one
  to the sum of the classified counters (exactly one of them, by the classification
  above) and leaves \<open>rate_limited_requests\<close> alone; \<open>record_rate_limit\<close> changes
  \<open>rate_limited_requests\<close> only.
\<close>

theorem metrics_counters_invariant:
  "total_requests (run_metrics ops)
     = gemini_requests (run_metrics ops) + local_requests (run_metrics ops)
       + fallback_requests (run_metrics ops)
   \<and> 0 \<le> total_requests (run_metrics ops) \<and> 0 \<le> gemini_requests (run_metrics ops)
   \<and> 0 \<le> local_requests (run_metrics ops) \<and> 0 \<le> fallback_requests (run_metrics ops)
   \<and> 0 \<le> rate_limited_requests (run_metrics ops)
   \<and> total_requests (run_metrics ops) \<le> total_requests (run_metrics (ops @ later))
   \<and> gemini_requests (run_metrics ops) \<le> gemini_requests (run_metrics (ops @ later))
   \<and> local_requests (run_metrics ops) \<le> local_requests (run_metrics (ops @ later))
   \<and> fallback_requests (run_metrics ops) \<le> fallback_requests (run_metrics (ops @ later))
   \<and> rate_limited_requests (run_metrics ops) \<le> rate_limited_requests (run_metrics (ops @ later))
   \<and> total_requests (record_request m latency_ms source) = total_requests m + 1
   \<and> gemini_requests (record_request m latency_ms source)
       + local_requests (record_request m latency_ms source)
       + fallback_requests (record_request m latency_ms source)
     = gemini_requests m + local_requests m + fallback_requests m + 1
   \<and> rate_limited_requests (record_request m latency_ms source) = rate_limited_requests m
   \<and> record_rate_limit m = m\<lparr>rate_limited_requests := rate_limited_requests m + 1\<rparr>"
proof -
  have sum: "total_requests (run_metrics ops)
     = gemini_requests (run_metrics ops) + local_requests (run_metrics ops)
       + fallback_requests (run_metrics ops)"
    using foldl_metrics_sum [of MetricsTracker_init ops]
    by (simp add: run_metrics_def MetricsTracker_init_def)
  have nonneg: "0 \<le> total_requests (run_metrics ops) \<and> 0 \<le> gemini_requests (run_metrics ops)
   \<and> 0 \<le> local_requests (run_metrics ops) \<and> 0 \<le> fallback_requests (run_metrics ops)
   \<and> 0 \<le> rate_limited_requests (run_metrics ops)"
    using foldl_metrics_mono [of MetricsTracker_init ops]
    by (simp add: run_metrics_def MetricsTracker_init_def)
  have mono: "total_requests (run_metrics ops) \<le> total_requests (run_metrics (ops @ later))
   \<and> gemini_requests (run_metrics ops) \<le> gemini_requests (run_metrics (ops @ later))
   \<and> local_requests (run_metrics ops) \<le> local_requests (run_metrics (ops @ later))
   \<and> fallback_requests (run_metrics ops) \<le> fallback_requests (run_metrics (ops @ later))
   \<and> rate_limited_requests (run_metrics ops) \<le> rate_limited_requests (run_metrics (ops @ later))"
    using foldl_metrics_mono [of "foldl apply_metrics_op MetricsTracker_init ops" later]
    by (simp add: run_metrics_def)
  have step: "total_requests (record_request m latency_ms source) = total_requests m + 1
   \<and> gemini_requests (record_request m latency_ms source)
       + local_requests (record_request m latency_ms source)
       + fallback_requests (record_request m latency_ms source)
     = gemini_requests m + local_requests m + fallback_requests m + 1
   \<and> rate_limited_requests (record_request m latency_ms source) = rate_limited_requests m"
    by (simp add: record_request_counters)
  from sum nonneg mono step show ?thesis
    by (simp add: record_rate_limit_def)
qed

theorem metrics_counters_invariant_witness:
  "total_requests (run_metrics [RecordRequest 7 ''gemini'', RecordRateLimit, GetMetrics,
      RecordRequest 9 ''fallback'', RecordRequest 4 ''local-cache'']) = 3
   \<and> rate_limited_requests (run_metrics [RecordRequest 7 ''gemini'', RecordRateLimit]) = 1"
  using metrics_counters_invariant [of "[RecordRequest 7 ''gemini'', RecordRateLimit, GetMetrics,
      RecordRequest 9 ''fallback'', RecordRequest 4 ''local-cache'']" "[]" MetricsTracker_init 0 "''x''"]
  by (simp add: run_metrics_def record_request_counters record_rate_limit_def get_metrics_state
      startswith_def MetricsTracker_init_def)

lemma p95_idx_floor: "int (p95_idx n) = \<lfloor>real n * 0.95\<rfloor>"
proof -
  have "real n * 0.95 = real (n * 95) / real 100" by simp
  moreover have "\<lfloor>real (n * 95) / real 100\<rfloor> = int ((n * 95) div 100)"
    by (rule floor_divide_of_nat_eq)
  ultimately show ?thesis by (simp only: p95_idx_def)
qed

lemma p95_idx_less: "0 < n \<Longrightarrow> p95_idx n < n"
  unfolding p95_idx_def by linarith

lemma median_p95_of_get_metrics:
  "latencies m \<noteq> [] \<Longrightarrow>
     latency_median_ms (fst (get_metrics m)) = sort (latencies m) ! (length (latencies m) div 2)
   \<and> latency_p95_ms (fst (get_metrics m))
       = sort (latencies m) ! min (p95_idx (length (latencies m))) (length (latencies m) - 1)"
  by (simp add: get_metrics_def Let_def)

lemma record_request_latencies:
  "latencies (record_request m l s) = deque_append 1000 (latencies m) l"
  by (simp add: record_request_def Let_def)

lemma deque_append_room: "length xs < maxlen \<Longrightarrow> deque_append maxlen xs x = xs @ [x]"
  by (simp add: deque_append_def Let_def)

lemma deque_append_full:
  "length xs = maxlen \<Longrightarrow> 0 < maxlen \<Longrightarrow> deque_append maxlen xs x = tl xs @ [x]"
  by (cases xs) (simp_all add: deque_append_def Let_def)

lemma deque_append_length: "length xs \<le> maxlen \<Longrightarrow> length (deque_append maxlen xs x) \<le> maxlen"
  by (simp add: deque_append_def Let_def)

lemma record_latencies_example:
  "latencies (record_latencies [10, 20, 30, 40, 50]) = [10, 20, 30, 40, 50]"
  by (simp add: record_latencies_def run_metrics_def record_request_latencies
      deque_append_room MetricsTracker_init_def)

lemma sort_cong_mset: "mset xs = mset ys \<Longrightarrow> sort xs = sort (ys :: int list)"
  by (rule properties_for_sort) simp_all

lemma length_cong_mset: "mset xs = mset ys \<Longrightarrow> length xs = length ys"
  by (rule mset_eq_length)

text \<open>
  C2, as stated, at the recorded latencies \<open>[10, 20, 30, 40]\<close>: the median reported is the
  element at index \<open>4 div 2 = 2\<close> of the sorted samples, which is 30, the upper of the two
  middle elements; the lower-middle element, at index \<open>(4 - 1) div 2\<close>, is 20.
\<close>

theorem median_even_count_counterexample:
  "latencies (record_latencies [10, 20, 30, 40]) = [10, 20, 30, 40]
   \<and> latency_median_ms (fst (get_metrics (record_latencies [10, 20, 30, 40]))) = 30
   \<and> latency_median_ms (fst (get_metrics (record_latencies [10, 20, 30, 40])))
       \<noteq> sort [10, 20, 30, 40] ! ((length [10, 20, 30, 40 :: int] - 1) div 2)"
proof -
  have l: "latencies (record_latencies [10, 20, 30, 40]) = [10, 20, 30, 40]"
    by (simp add: record_latencies_def run_metrics_def record_request_latencies
        deque_append_room MetricsTracker_init_def)
  have "latency_median_ms (fst (get_metrics (record_latencies [10, 20, 30, 40]))) = 30"
    using median_p95_of_get_metrics [of "record_latencies [10, 20, 30, 40]"] by (simp add: l)
  with l show ?thesis by simp
qed

text \<open>
  C2 (amended): for every non-empty buffer of recorded latencies, the median of the
  snapshot is the element at index \<open>count div 2\<close> of the ascending-sorted samples (the
  middle element on an odd count, the upper-middle element on an even count), and the p95
  value is the sorted element at index \<open>floor (count * 0.95)\<close> clamped to the last valid
  index; both indices are in range; both values depend on the multiset of the samples
  only; the call leaves the tracker, and so the sample buffer, unchanged. For the recorded
  latencies \<open>[10, 20, 30, 40, 50]\<close> the median is 30 and the p95 value is 50.
\<close>

theorem get_metrics_percentiles:
  assumes "latencies m \<noteq> []"
  shows "latency_median_ms (fst (get_metrics m))
           = sort (latencies m) ! (length (latencies m) div 2)
   \<and> length (latencies m) div 2 < length (sort (latencies m))
   \<and> latency_p95_ms (fst (get_metrics m))
           = sort (latencies m) ! min (p95_idx (length (latencies m))) (length (latencies m) - 1)
   \<and> int (p95_idx (length (latencies m))) = \<lfloor>real (length (latencies m)) * 0.95\<rfloor>
   \<and> min (p95_idx (length (latencies m))) (length (latencies m) - 1)
           < length (sort (latencies m))
   \<and> (\<forall>m' :: metrics_tracker. mset (latencies m') = mset (latencies m) \<longrightarrow>
          latency_median_ms (fst (get_metrics m')) = latency_median_ms (fst (get_metrics m))
          \<and> latency_p95_ms (fst (get_metrics m')) = latency_p95_ms (fst (get_metrics m)))
   \<and> snd (get_metrics m) = m
   \<and> latencies (record_latencies [10, 20, 30, 40, 50]) = [10, 20, 30, 40, 50]
   \<and> latency_median_ms (fst (get_metrics (record_latencies [10, 20, 30, 40, 50]))) = 30
   \<and> latency_p95_ms (fst (get_metrics (record_latencies [10, 20, 30, 40, 50]))) = 50"
proof -
  from assms have pos: "0 < length (latencies m)" by simp
  from pos have pred: "length (latencies m) - 1 < length (latencies m)" by linarith
  note vals = median_p95_of_get_metrics [OF assms]
  have c1: "latency_median_ms (fst (get_metrics m))
           = sort (latencies m) ! (length (latencies m) div 2)"
    using vals by (rule conjunct1)
  have c2: "length (latencies m) div 2 < length (sort (latencies m))"
    using pos by simp
  have c3: "latency_p95_ms (fst (get_metrics m))
           = sort (latencies m) ! min (p95_idx (length (latencies m))) (length (latencies m) - 1)"
    using vals by (rule conjunct2)
  have c4: "int (p95_idx (length (latencies m))) = \<lfloor>real (length (latencies m)) * 0.95\<rfloor>"
    by (rule p95_idx_floor)
  have c5: "min (p95_idx (length (latencies m))) (length (latencies m) - 1)
           < length (sort (latencies m))"
    using pred by (simp add: min_less_iff_disj del: length_greater_0_conv)
  have c6: "\<forall>m' :: metrics_tracker. mset (latencies m') = mset (latencies m) \<longrightarrow>
          latency_median_ms (fst (get_metrics m')) = latency_median_ms (fst (get_metrics m))
          \<and> latency_p95_ms (fst (get_metrics m')) = latency_p95_ms (fst (get_metrics m))"
  proof (intro allI impI)
    fix m' :: metrics_tracker assume eq: "mset (latencies m') = mset (latencies m)"
    then have s: "sort (latencies m') = sort (latencies m)" by (rule sort_cong_mset)
    from eq have n: "length (latencies m') = length (latencies m)" by (rule length_cong_mset)
    with assms have "latencies m' \<noteq> []" by auto
    from median_p95_of_get_metrics [OF this] c1 c3
    show "latency_median_ms (fst (get_metrics m')) = latency_median_ms (fst (get_metrics m))
          \<and> latency_p95_ms (fst (get_metrics m')) = latency_p95_ms (fst (get_metrics m))"
      by (simp only: s n)
  qed
  have c7: "snd (get_metrics m) = m" by (rule get_metrics_state)
  note c8 = record_latencies_example
  have ne: "latencies (record_latencies [10, 20, 30, 40, 50]) \<noteq> []"
    by (simp only: c8) simp
  note ex = median_p95_of_get_metrics [OF ne, unfolded c8]
  have c9: "latency_median_ms (fst (get_metrics (record_latencies [10, 20, 30, 40, 50]))) = 30"
    using ex by simp
  have c10: "latency_p95_ms (fst (get_metrics (record_latencies [10, 20, 30, 40, 50]))) = 50"
    using ex by (simp add: p95_idx_def)
  show ?thesis
    by (intro conjI) (rule c1 c2 c3 c4 c5 c6 c7 c8 c9 c10)+
qed

theorem get_metrics_percentiles_witness:
  "latencies (record_latencies [50, 10, 40, 20, 30]) \<noteq> []
   \<and> latency_median_ms (fst (get_metrics (record_latencies [50, 10, 40, 20, 30]))) = 30
   \<and> latency_p95_ms (fst (get_metrics (record_latencies [50, 10, 40, 20, 30]))) = 50"
proof -
  have l: "latencies (record_latencies [50, 10, 40, 20, 30]) = [50, 10, 40, 20, 30]"
    by (simp add: record_latencies_def run_metrics_def record_request_latencies
        deque_append_room MetricsTracker_init_def)
  then have ne: "latencies (record_latencies [50, 10, 40, 20, 30]) \<noteq> []" by simp
  from get_metrics_percentiles [OF ne] l show ?thesis
    by (simp add: p95_idx_def)
qed

section \<open>Properties of RateLimiter\<close>

lemma is_allowed_cpm: "calls_per_minute (snd (is_allowed rl now ip)) = calls_per_minute rl"
  by (simp add: is_allowed_def Let_def)

lemma is_allowed_other:
  "c \<noteq> ip \<Longrightarrow> window_of (snd (is_allowed rl now c)) ip = window_of rl ip"
  by (simp add: is_allowed_def Let_def window_of_def)

lemma is_allowed_same:
  "window_of (snd (is_allowed rl now ip)) ip =
     (if fst (is_allowed rl now ip)
      then dropWhile (\<lambda>t. t < now - 60) (window_of rl ip) @ [now]
      else dropWhile (\<lambda>t. t < now - 60) (window_of rl ip))"
  by (simp add: is_allowed_def Let_def window_of_def)

lemma is_allowed_result:
  "fst (is_allowed rl now ip) =
     (int (length (dropWhile (\<lambda>t. t < now - 60) (window_of rl ip))) < calls_per_minute rl)"
  by (simp add: is_allowed_def Let_def)

lemma run_limiter_Cons:
  "run_limiter rl ((now, c) # calls) =
     (fst (is_allowed rl now c) # fst (run_limiter (snd (is_allowed rl now c)) calls),
      snd (run_limiter (snd (is_allowed rl now c)) calls))"
  by (simp add: Let_def split: prod.splits)

lemma window_bound_step:
  fixes A :: "real list"
  assumes split: "A = pre @ dq"
    and old: "\<forall>x\<in>set pre. x < now - 60"
    and room: "int (length dq) < cpm"
    and bound: "\<forall>T. int (length (filter (in_window T) A)) \<le> cpm"
  shows "int (length (filter (in_window T) (A @ [now]))) \<le> cpm"
proof (cases "in_window T now")
  case False
  with bound show ?thesis by simp
next
  case True
  then have "now - 60 \<le> T - 60" by (simp add: in_window_def)
  with old have "\<forall>x\<in>set pre. \<not> in_window T x" by (fastforce simp: in_window_def)
  then have "filter (in_window T) pre = []" by (simp add: filter_empty_conv)
  with split have "length (filter (in_window T) A) \<le> length dq" by simp
  with room True show ?thesis by simp
qed

lemma run_limiter_window_bound:
  assumes "sorted (map fst calls)"
    and "\<forall>t\<in>set (map fst calls). t0 \<le> t"
    and "A = pre @ window_of rl ip"
    and "\<forall>x\<in>set pre. x < t0 - 60"
    and "\<forall>T. int (length (filter (in_window T) A)) \<le> calls_per_minute rl"
  shows "int (length (filter (in_window T)
           (A @ admitted ip calls (fst (run_limiter rl calls))))) \<le> calls_per_minute rl"
  using assms
proof (induction calls arbitrary: rl A pre t0)
  case Nil
  then show ?case by simp
next
  case (Cons call calls)
  obtain now c where call: "call = (now, c)" by (cases call)
  let ?rl = "snd (is_allowed rl now c)"
  let ?ok = "fst (is_allowed rl now c)"
  let ?dq = "dropWhile (\<lambda>t. t < now - 60) (window_of rl ip)"
  let ?tk = "takeWhile (\<lambda>t. t < now - 60) (window_of rl ip)"
  from Cons.prems(1) call have sorted': "sorted (map fst calls)"
    and later: "\<forall>t\<in>set (map fst calls). now \<le> t" by simp_all
  from Cons.prems(2) call have t0: "t0 \<le> now" by simp
  have cpm: "calls_per_minute ?rl = calls_per_minute rl" by (rule is_allowed_cpm)
  have adm: "admitted ip (call # calls) (fst (run_limiter rl (call # calls))) =
      (if ?ok \<and> c = ip then now # admitted ip calls (fst (run_limiter ?rl calls))
       else admitted ip calls (fst (run_limiter ?rl calls)))"
    unfolding call run_limiter_Cons by simp
  show ?case
  proof (cases "c = ip")
    case False
    have w: "window_of ?rl ip = window_of rl ip" using False by (rule is_allowed_other)
    have pre: "\<forall>x\<in>set pre. x < now - 60" using Cons.prems(4) t0 by fastforce
    have eqA: "A = pre @ window_of ?rl ip" using Cons.prems(3) w by simp
    have bnd: "\<forall>T. int (length (filter (in_window T) A)) \<le> calls_per_minute ?rl"
      using Cons.prems(5) cpm by simp
    note Cons.IH [OF sorted' later eqA pre bnd]
    with False show ?thesis by (simp add: adm is_allowed_cpm del: run_limiter.simps)
  next
    case True
    have pre: "\<forall>x\<in>set (pre @ ?tk). x < now - 60"
      using Cons.prems(4) t0 by (fastforce dest: set_takeWhileD)
    have A: "A = (pre @ ?tk) @ ?dq" using Cons.prems(3) by simp
    show ?thesis
    proof (cases ?ok)
      case False
      have w: "window_of ?rl ip = ?dq" using False True is_allowed_same [of rl now ip] by simp
      have eqA: "A = (pre @ ?tk) @ window_of ?rl ip" using A w by simp
      have bnd: "\<forall>T. int (length (filter (in_window T) A)) \<le> calls_per_minute ?rl"
        using Cons.prems(5) cpm by simp
      note Cons.IH [OF sorted' later eqA pre bnd]
      with False show ?thesis by (simp add: adm is_allowed_cpm del: run_limiter.simps)
    next
      case ok: True
      have w: "window_of ?rl ip = ?dq @ [now]"
        using ok True is_allowed_same [of rl now ip] by simp
      from ok True have room: "int (length ?dq) < calls_per_minute rl"
        by (simp add: is_allowed_result)
      have bnd: "\<forall>T. int (length (filter (in_window T) (A @ [now]))) \<le> calls_per_minute ?rl"
        using window_bound_step [OF A pre room Cons.prems(5)] cpm by simp
      have eqA: "A @ [now] = (pre @ ?tk) @ window_of ?rl ip" using A w by simp
      note Cons.IH [OF sorted' later eqA pre bnd]
      with ok True show ?thesis by (auto simp add: adm is_allowed_cpm simp del: run_limiter.simps split: if_splits)
    qed
  qed
qed

lemma dropWhile_sorted_filter:
  fixes dq :: "real list"
  shows "sorted dq \<Longrightarrow> dropWhile (\<lambda>t. t < w) dq = filter (\<lambda>t. \<not> t < w) dq"
proof (induction dq)
  case Nil
  show ?case by simp
next
  case (Cons x xs)
  show ?case
  proof (cases "x < w")
    case True
    with Cons show ?thesis by simp
  next
    case False
    with Cons.prems have "\<forall>y\<in>set xs. \<not> y < w" by fastforce
    then have "filter (\<lambda>t. \<not> t < w) xs = xs" by (simp add: filter_id_conv)
    with False show ?thesis by simp
  qed
qed

lemma is_allowed_window_set:
  "set (window_of (snd (is_allowed rl now c)) ip) \<subseteq> set (window_of rl ip) \<union> {now}"
proof (cases "c = ip")
  case True
  then show ?thesis
    by (auto simp: is_allowed_same dest: set_dropWhileD)
next
  case False
  then show ?thesis by (auto simp: is_allowed_other)
qed

lemma is_allowed_sorted:
  assumes "sorted (window_of rl ip)" and "\<forall>x\<in>set (window_of rl ip). x \<le> now"
  shows "sorted (window_of (snd (is_allowed rl now c)) ip)"
proof (cases "c = ip")
  case False
  with assms(1) show ?thesis by (simp add: is_allowed_other)
next
  case True
  have s: "sorted (dropWhile (\<lambda>t. t < now - 60) (window_of rl ip))"
    using assms(1) by (rule sorted_dropWhile)
  have "\<forall>x\<in>set (dropWhile (\<lambda>t. t < now - 60) (window_of rl ip)). x \<le> now"
    using assms(2) by (auto dest: set_dropWhileD)
  with s True show ?thesis by (simp add: is_allowed_same sorted_append)
qed

lemma run_limiter_sorted:
  assumes "sorted (map fst calls)"
    and "\<forall>x\<in>set (window_of rl ip). \<forall>t\<in>set (map fst calls). x \<le> t"
    and "sorted (window_of rl ip)"
  shows "sorted (window_of (snd (run_limiter rl calls)) ip)"
  using assms
proof (induction calls arbitrary: rl)
  case Nil
  then show ?case by simp
next
  case (Cons call calls)
  obtain now c where call: "call = (now, c)" by (cases call)
  let ?rl = "snd (is_allowed rl now c)"
  from Cons.prems(1) call have sorted': "sorted (map fst calls)"
    and later: "\<forall>t\<in>set (map fst calls). now \<le> t" by simp_all
  from Cons.prems(2) call have le_now: "\<forall>x\<in>set (window_of rl ip). x \<le> now" by simp
  have s: "sorted (window_of ?rl ip)" using Cons.prems(3) le_now by (rule is_allowed_sorted)
  have b: "\<forall>x\<in>set (window_of ?rl ip). \<forall>t\<in>set (map fst calls). x \<le> t"
  proof (intro ballI)
    fix x t assume x: "x \<in> set (window_of ?rl ip)" and t: "t \<in> set (map fst calls)"
    from x is_allowed_window_set [of rl now c ip] have "x \<in> set (window_of rl ip) \<or> x = now"
      by auto
    with later t Cons.prems(2) call show "x \<le> t" by auto
  qed
  from Cons.IH [OF sorted' b s] show ?case
    unfolding call run_limiter_Cons by simp
qed

lemma window_of_init: "window_of (RateLimiter_init cpm) ip = []"
  by (simp add: window_of_def RateLimiter_init_def)

text \<open>
  C5: a call of \<open>is_allowed\<close> first drops, from the left of the client's deque, the
  timestamps older than \<open>now - 60\<close>; it returns true and records \<open>now\<close> iff the remaining
  count is below \<open>calls_per_minute\<close>, and returns false without recording otherwise; no
  other client's deque and no configuration changes. For every sequence of calls on a
  fresh limiter whose clock readings do not decrease, with a non-negative limit, every
  deque stays sorted (so the timestamps dropped are exactly those older than
  \<open>now - 60\<close>), and for every client and every window \<open>[T - 60, T]\<close> at most
  \<open>calls_per_minute\<close> of the calls that returned true have their timestamp in the window.
\<close>

theorem rate_limiter_window_bound:
  "fst (is_allowed rl now client_ip)
     = (int (length (dropWhile (\<lambda>t. t < now - 60) (window_of rl client_ip)))
          < calls_per_minute rl)
   \<and> window_of (snd (is_allowed rl now client_ip)) client_ip
     = (if fst (is_allowed rl now client_ip)
        then dropWhile (\<lambda>t. t < now - 60) (window_of rl client_ip) @ [now]
        else dropWhile (\<lambda>t. t < now - 60) (window_of rl client_ip))
   \<and> (\<forall>other. other \<noteq> client_ip \<longrightarrow>
        clients (snd (is_allowed rl now client_ip)) other = clients rl other)
   \<and> calls_per_minute (snd (is_allowed rl now client_ip)) = calls_per_minute rl
   \<and> (sorted (window_of rl client_ip) \<longrightarrow>
        dropWhile (\<lambda>t. t < now - 60) (window_of rl client_ip)
          = filter (\<lambda>t. \<not> t < now - 60) (window_of rl client_ip))
   \<and> (sorted (map fst calls) \<and> 0 \<le> cpm \<longrightarrow>
        sorted (window_of (snd (run_limiter (RateLimiter_init cpm) calls)) ip)
        \<and> (\<forall>T. int (length (filter (in_window T)
               (admitted ip calls (fst (run_limiter (RateLimiter_init cpm) calls)))))
             \<le> cpm))"
proof -
  have step1: "fst (is_allowed rl now client_ip)
     = (int (length (dropWhile (\<lambda>t. t < now - 60) (window_of rl client_ip)))
          < calls_per_minute rl)"
    by (rule is_allowed_result)
  have step2: "window_of (snd (is_allowed rl now client_ip)) client_ip
     = (if fst (is_allowed rl now client_ip)
        then dropWhile (\<lambda>t. t < now - 60) (window_of rl client_ip) @ [now]
        else dropWhile (\<lambda>t. t < now - 60) (window_of rl client_ip))"
    by (rule is_allowed_same)
  have step3: "\<forall>other. other \<noteq> client_ip \<longrightarrow>
        clients (snd (is_allowed rl now client_ip)) other = clients rl other"
    by (simp add: is_allowed_def Let_def)
  have step4: "calls_per_minute (snd (is_allowed rl now client_ip)) = calls_per_minute rl"
    by (rule is_allowed_cpm)
  have step5: "sorted (window_of rl client_ip) \<longrightarrow>
        dropWhile (\<lambda>t. t < now - 60) (window_of rl client_ip)
          = filter (\<lambda>t. \<not> t < now - 60) (window_of rl client_ip)"
    by (simp add: dropWhile_sorted_filter)
  have run: "sorted (map fst calls) \<and> 0 \<le> cpm \<longrightarrow>
        sorted (window_of (snd (run_limiter (RateLimiter_init cpm) calls)) ip)
        \<and> (\<forall>T. int (length (filter (in_window T)
               (admitted ip calls (fst (run_limiter (RateLimiter_init cpm) calls)))))
             \<le> cpm)"
  proof (intro impI conjI allI)
    assume a: "sorted (map fst calls) \<and> 0 \<le> cpm"
    then have s: "sorted (map fst calls)" and nn: "0 \<le> cpm" by simp_all
    show "sorted (window_of (snd (run_limiter (RateLimiter_init cpm) calls)) ip)"
      using s by (rule run_limiter_sorted) (simp_all add: window_of_init)
    fix T
    obtain t0 :: real where t0: "\<forall>t\<in>set (map fst calls). t0 \<le> t"
    proof (cases calls)
      case Nil
      then have "\<forall>t\<in>set (map fst calls). 0 \<le> t" by simp
      then show ?thesis by (rule that)
    next
      case (Cons call rest)
      with s have "\<forall>t\<in>set (map fst calls). fst call \<le> t" by auto
      then show ?thesis by (rule that)
    qed
    have e: "[] = [] @ window_of (RateLimiter_init cpm) ip" by (simp add: window_of_init)
    have p: "\<forall>x\<in>set ([] :: real list). x < t0 - 60" by simp
    have b: "\<forall>T. int (length (filter (in_window T) []))
               \<le> calls_per_minute (RateLimiter_init cpm)"
      using nn by (simp add: RateLimiter_init_def)
    from run_limiter_window_bound [OF s t0 e p b, of T]
    show "int (length (filter (in_window T)
               (admitted ip calls (fst (run_limiter (RateLimiter_init cpm) calls)))))
             \<le> cpm"
      by (simp add: RateLimiter_init_def)
  qed
  show ?thesis
    by (intro conjI) (rule step1 step2 step3 step4 step5 run)+
qed

lemma is_allowed_eval:
  "is_allowed rl now ip =
     (if int (length (dropWhile (\<lambda>t. t < now - 60) (window_of rl ip))) < calls_per_minute rl
      then (True, rl\<lparr>clients := (clients rl)(ip \<mapsto>
              dropWhile (\<lambda>t. t < now - 60) (window_of rl ip) @ [now])\<rparr>)
      else (False, rl\<lparr>clients := (clients rl)(ip \<mapsto>
              dropWhile (\<lambda>t. t < now - 60) (window_of rl ip))\<rparr>))"
  by (simp add: is_allowed_def Let_def)

theorem rate_limiter_window_bound_witness:
  "sorted (map fst [(0, ''10.0.0.1''), (10, ''10.0.0.1''), (20, ''10.0.0.1''),
                    (61, ''10.0.0.1''), (70.5 :: real, ''10.0.0.1'')])
   \<and> (0::int) \<le> 2
   \<and> fst (run_limiter (RateLimiter_init 2)
        [(0, ''10.0.0.1''), (10, ''10.0.0.1''), (20, ''10.0.0.1''),
         (61, ''10.0.0.1''), (70.5, ''10.0.0.1'')])
      = [True, True, False, True, True]
   \<and> int (length (filter (in_window 70)
        (admitted ''10.0.0.1''
          [(0, ''10.0.0.1''), (10, ''10.0.0.1''), (20, ''10.0.0.1''),
           (61, ''10.0.0.1''), (70.5, ''10.0.0.1'')]
          (fst (run_limiter (RateLimiter_init 2)
            [(0, ''10.0.0.1''), (10, ''10.0.0.1''), (20, ''10.0.0.1''),
             (61, ''10.0.0.1''), (70.5, ''10.0.0.1'')]))))) \<le> 2"
proof -
  let ?calls = "[(0, ''10.0.0.1''), (10, ''10.0.0.1''), (20, ''10.0.0.1''),
                    (61, ''10.0.0.1''), (70.5::real, ''10.0.0.1'')]"
  have s: "sorted (map fst ?calls)" by simp
  have r: "fst (run_limiter (RateLimiter_init 2) ?calls) = [True, True, False, True, True]"
    by (simp add: is_allowed_eval window_of_def RateLimiter_init_def)
  note run = rate_limiter_window_bound [of "RateLimiter_init 2" 0 "''10.0.0.1''" ?calls 2
      "''10.0.0.1''", THEN conjunct2, THEN conjunct2, THEN conjunct2, THEN conjunct2,
      THEN conjunct2, rule_format]
  have "sorted (map fst ?calls) \<and> (0::int) \<le> 2" using s by simp
  from run [OF this, THEN conjunct2, rule_format, of 70]
  have b: "int (length (filter (in_window 70)
        (admitted ''10.0.0.1'' ?calls (fst (run_limiter (RateLimiter_init 2) ?calls))))) \<le> 2" .
  show ?thesis
    by (intro conjI s r b) simp
qed

section \<open>Properties of ResponseCache\<close>

lemma length_update_le: "length (AList.update k v al) \<le> Suc (length al)"
  by (induction al) auto

lemma length_delete_present:
  "k \<in> fst ` set al \<Longrightarrow> Suc (length (AList.delete k al)) \<le> length al"
proof (induction al)
  case Nil
  then show ?case by simp
next
  case (Cons p ps)
  show ?case
  proof (cases "fst p = k")
    case True
    have "length (AList.delete k ps) \<le> length ps" by (rule length_delete_le)
    with True show ?thesis by (cases p) simp
  next
    case False
    with Cons.prems have "k \<in> fst ` set ps" by auto
    from Cons.IH [OF this] False show ?thesis by (cases p) simp
  qed
qed

lemma min_by_timestamp_mem: "min_by_timestamp best es \<in> set (best # es)"
  by (induction best es rule: min_by_timestamp.induct) auto

lemma min_by_timestamp_least_all:
  "\<forall>e\<in>set (best # es). snd (snd (min_by_timestamp best es)) \<le> snd (snd e)"
proof (induction best es rule: min_by_timestamp.induct)
  case (1 best)
  show ?case by simp
next
  case (2 best x es)
  let ?b = "if snd (snd x) < snd (snd best) then x else best"
  have b: "snd (snd ?b) \<le> snd (snd best)" "snd (snd ?b) \<le> snd (snd x)" by auto
  from "2.IH" have m: "snd (snd (min_by_timestamp ?b es)) \<le> snd (snd ?b)"
    and rest: "\<forall>e\<in>set es. snd (snd (min_by_timestamp ?b es)) \<le> snd (snd e)" by simp_all
  from m b have "snd (snd (min_by_timestamp ?b es)) \<le> snd (snd best)"
    and "snd (snd (min_by_timestamp ?b es)) \<le> snd (snd x)" by linarith+
  with rest show ?case by simp
qed

lemma min_by_timestamp_least:
  "e \<in> set (best # es) \<Longrightarrow> snd (snd (min_by_timestamp best es)) \<le> snd (snd e)"
  using min_by_timestamp_least_all [of best es] by blast

lemma oldest_key_nonempty:
  assumes "es \<noteq> []"
  shows "\<exists>old r t. oldest_key es = Inr old \<and> (old, r, t) \<in> set es
           \<and> (\<forall>e\<in>set es. t \<le> snd (snd e))"
proof -
  from assms obtain e rest where es: "es = e # rest" by (cases es) auto
  obtain old r t where m: "min_by_timestamp e rest = (old, r, t)"
    by (cases "min_by_timestamp e rest") auto
  have mem: "(old, r, t) \<in> set es"
    using min_by_timestamp_mem [of e rest] by (simp add: m es)
  have least: "\<forall>x\<in>set es. t \<le> snd (snd x)"
    using min_by_timestamp_least [of _ e rest] by (simp add: m es)
  have "oldest_key es = Inr old" by (simp add: oldest_key_def es m)
  with mem least show ?thesis by blast
qed

lemma cache_get_keeps_config:
  "max_size (snd (cache_get h c now p prov)) = max_size c
   \<and> ttl_seconds (snd (cache_get h c now p prov)) = ttl_seconds c"
  by (simp add: cache_get_def Let_def split: option.splits prod.splits)

lemma cache_get_entries:
  "cache (snd (cache_get h c now p prov)) = cache c
   \<or> cache (snd (cache_get h c now p prov)) = AList.delete (make_key h p prov) (cache c)"
  by (simp add: cache_get_def Let_def split: option.splits prod.splits)

lemma cache_set_full:
  assumes "max_size c \<le> int (length (cache c))" and "cache c \<noteq> []"
  shows "\<exists>old r t. (old, r, t) \<in> set (cache c) \<and> (\<forall>e\<in>set (cache c). t \<le> snd (snd e))
     \<and> cache_set h c now p resp prov
       = Inr (c\<lparr>cache := AList.update (make_key h p prov) (resp, now)
                           (AList.delete old (cache c))\<rparr>)"
proof -
  from oldest_key_nonempty [OF assms(2)] obtain old r t
    where o: "oldest_key (cache c) = Inr old" and mem: "(old, r, t) \<in> set (cache c)"
      and least: "\<forall>e\<in>set (cache c). t \<le> snd (snd e)" by blast
  from assms(1) o have "cache_set h c now p resp prov
       = Inr (c\<lparr>cache := AList.update (make_key h p prov) (resp, now)
                           (AList.delete old (cache c))\<rparr>)"
    by (simp add: cache_set_def Let_def)
  with mem least show ?thesis by blast
qed

lemma cache_set_room:
  "int (length (cache c)) < max_size c \<Longrightarrow>
     cache_set h c now p resp prov
       = Inr (c\<lparr>cache := AList.update (make_key h p prov) (resp, now) (cache c)\<rparr>)"
  by (simp add: cache_set_def Let_def)

lemma cache_set_lookup:
  "cache_set h c now p resp prov = Inr c' \<Longrightarrow>
     map_of (cache c') (make_key h p prov) = Some (resp, now)
     \<and> max_size c' = max_size c \<and> ttl_seconds c' = ttl_seconds c"
  by (auto simp: cache_set_def Let_def update_conv' split: if_splits sum.splits)

lemma cache_inv_get: "cache_inv c \<Longrightarrow> cache_inv (snd (cache_get h c now p prov))"
proof -
  assume inv: "cache_inv c"
  have "length (AList.delete (make_key h p prov) (cache c)) \<le> length (cache c)"
    by (rule length_delete_le)
  with inv cache_get_entries [of h c now p prov] cache_get_keeps_config [of h c now p prov]
  show ?thesis by (auto simp: cache_inv_def distinct_delete)
qed

lemma cache_inv_set:
  assumes inv: "cache_inv c"
  shows "\<exists>c'. cache_set h c now p resp prov = Inr c' \<and> cache_inv c'"
proof (cases "max_size c \<le> int (length (cache c))")
  case True
  with inv have ne: "cache c \<noteq> []" by (auto simp: cache_inv_def)
  from cache_set_full [OF True ne, of h now p resp prov] obtain old r t
    where mem: "(old, r, t) \<in> set (cache c)"
      and eq: "cache_set h c now p resp prov
       = Inr (c\<lparr>cache := AList.update (make_key h p prov) (resp, now)
                           (AList.delete old (cache c))\<rparr>)" by blast
  from mem have "old \<in> fst ` set (cache c)" by force
  then have "Suc (length (AList.delete old (cache c))) \<le> length (cache c)"
    by (rule length_delete_present)
  moreover have "length (AList.update (make_key h p prov) (resp, now) (AList.delete old (cache c)))
      \<le> Suc (length (AList.delete old (cache c)))" by (rule length_update_le)
  ultimately have "length (AList.update (make_key h p prov) (resp, now)
      (AList.delete old (cache c))) \<le> length (cache c)" by linarith
  with inv have "cache_inv (c\<lparr>cache := AList.update (make_key h p prov) (resp, now)
                           (AList.delete old (cache c))\<rparr>)"
    by (simp add: cache_inv_def distinct_update distinct_delete)
  with eq show ?thesis by blast
next
  case False
  then have room: "int (length (cache c)) < max_size c" by simp
  have "length (AList.update (make_key h p prov) (resp, now) (cache c)) \<le> Suc (length (cache c))"
    by (rule length_update_le)
  with room inv have "cache_inv (c\<lparr>cache := AList.update (make_key h p prov) (resp, now) (cache c)\<rparr>)"
    by (simp add: cache_inv_def distinct_update)
  with cache_set_room [OF room] show ?thesis by simp
qed

lemma cache_inv_op: "cache_inv c \<Longrightarrow> cache_inv (apply_cache_op h c op)"
proof (cases op)
  case (CacheGet now p prov)
  assume "cache_inv c"
  then show ?thesis unfolding CacheGet by (simp add: cache_inv_get)
next
  case (CacheSet now p resp prov)
  assume "cache_inv c"
  from cache_inv_set [OF this, of h now p resp prov] show ?thesis
    unfolding CacheSet by auto
qed

lemma cache_inv_run: "cache_inv c \<Longrightarrow> cache_inv (run_cache h c ops)"
  unfolding run_cache_def
  by (induction ops arbitrary: c) (simp_all add: cache_inv_op del: apply_cache_op.simps)

lemma cache_inv_init: "0 < ms \<Longrightarrow> cache_inv (ResponseCache_init ms ttl)"
  by (simp add: cache_inv_def ResponseCache_init_def)

lemma run_cache_max_size: "max_size (run_cache h c ops) = max_size c"
  unfolding run_cache_def
proof (induction ops arbitrary: c)
  case Nil
  show ?case by simp
next
  case (Cons op ops)
  have "max_size (apply_cache_op h c op) = max_size c"
    by (cases op) (auto simp: cache_get_keeps_config dest: cache_set_lookup split: sum.splits)
  with Cons.IH [of "apply_cache_op h c op"] show ?case by simp
qed

text \<open>
  C7: after \<open>set\<close> has stored a response for a (prompt, provider) pair at time \<open>ts\<close>, a \<open>get\<close>
  for the pair at time \<open>now\<close> returns that response, and leaves the cache as it is, when
  \<open>now - ts\<close> is strictly less than \<open>ttl_seconds\<close> (300 for the global cache). Once
  \<open>ttl_seconds\<close> has elapsed, the \<open>get\<close> returns nothing and deletes the entry; the pair
  then has no entry, so every later \<open>get\<close> is a plain miss that changes nothing, until
  the pair is stored again.
\<close>

theorem cache_get_after_set:
  assumes "cache_set py_hash c ts prompt response provider = Inr c'"
  shows "(now - ts < real_of_int (ttl_seconds c) \<longrightarrow>
            cache_get py_hash c' now prompt provider = (Some response, c'))
   \<and> (\<not> now - ts < real_of_int (ttl_seconds c) \<longrightarrow>
        cache_get py_hash c' now prompt provider
          = (None, c'\<lparr>cache := AList.delete (make_key py_hash prompt provider) (cache c')\<rparr>)
        \<and> map_of (AList.delete (make_key py_hash prompt provider) (cache c'))
             (make_key py_hash prompt provider) = None
        \<and> (\<forall>now'. cache_get py_hash
               (c'\<lparr>cache := AList.delete (make_key py_hash prompt provider) (cache c')\<rparr>)
               now' prompt provider
             = (None, c'\<lparr>cache := AList.delete (make_key py_hash prompt provider) (cache c')\<rparr>)))
   \<and> ttl_seconds response_cache_default = 300"
proof -
  let ?key = "make_key py_hash prompt provider"
  from cache_set_lookup [OF assms]
  have look: "map_of (cache c') ?key = Some (response, ts)"
    and ttl: "ttl_seconds c' = ttl_seconds c" by simp_all
  have gone: "map_of (AList.delete ?key (cache c')) ?key = None"
    by (simp add: delete_conv')
  have hit: "now - ts < real_of_int (ttl_seconds c) \<longrightarrow>
            cache_get py_hash c' now prompt provider = (Some response, c')"
    using look ttl by (simp add: cache_get_def Let_def)
  have miss: "\<not> now - ts < real_of_int (ttl_seconds c) \<longrightarrow>
        cache_get py_hash c' now prompt provider
          = (None, c'\<lparr>cache := AList.delete ?key (cache c')\<rparr>)"
    using look ttl by (simp add: cache_get_def Let_def)
  have later: "\<forall>now'. cache_get py_hash (c'\<lparr>cache := AList.delete ?key (cache c')\<rparr>)
               now' prompt provider
             = (None, c'\<lparr>cache := AList.delete ?key (cache c')\<rparr>)"
    using gone by (simp add: cache_get_def Let_def)
  have dflt: "ttl_seconds response_cache_default = 300"
    by (simp add: response_cache_default_def ResponseCache_init_def)
  from hit miss gone later dflt show ?thesis by blast
qed

theorem cache_get_after_set_witness:
  "cache_set (\<lambda>s. int (length s)) response_cache_default 100 ''Hello'' ''Hi there'' ''gemini''
     = Inr \<lparr>max_size = 100, ttl_seconds = 300, cache = [(12, ''Hi there'', 100)]\<rparr>
   \<and> cache_get (\<lambda>s. int (length s))
        \<lparr>max_size = 100, ttl_seconds = 300, cache = [(12, ''Hi there'', 100)]\<rparr>
        399.5 ''hello '' ''Gemini''
     = (Some ''Hi there'', \<lparr>max_size = 100, ttl_seconds = 300, cache = [(12, ''Hi there'', 100)]\<rparr>)
   \<and> cache_get (\<lambda>s. int (length s))
        \<lparr>max_size = 100, ttl_seconds = 300, cache = [(12, ''Hi there'', 100)]\<rparr>
        400 ''Hello'' ''gemini''
     = (None, \<lparr>max_size = 100, ttl_seconds = 300, cache = []\<rparr>)"
proof -
  let ?h = "\<lambda>s :: string. int (length s)"
  let ?c1 = "\<lparr>max_size = 100, ttl_seconds = 300, cache = [(12, ''Hi there'', 100 :: real)]\<rparr>"
  have key: "make_key ?h ''Hello'' ''gemini'' = 12"
    by (simp add: make_key_def strip_def lower_def lower_char_def is_space_def)
  have key': "make_key ?h ''hello '' ''Gemini'' = 12"
    by (simp add: make_key_def strip_def lower_def lower_char_def is_space_def)
  have s: "cache_set ?h response_cache_default 100 ''Hello'' ''Hi there'' ''gemini'' = Inr ?c1"
    by (simp add: cache_set_def key response_cache_default_def ResponseCache_init_def)
  have g1: "cache_get ?h ?c1 399.5 ''hello '' ''Gemini'' = (Some ''Hi there'', ?c1)"
    by (simp add: cache_get_def key')
  from cache_get_after_set [OF s, of 400]
  have g2: "cache_get ?h ?c1 400 ''Hello'' ''gemini''
     = (None, \<lparr>max_size = 100, ttl_seconds = 300, cache = []\<rparr>)"
    by (simp add: key response_cache_default_def ResponseCache_init_def)
  from s g1 g2 show ?thesis by (intro conjI)
qed

text \<open>
  C8: for every sequence of \<open>get\<close> and \<open>set\<close> calls on a fresh cache with a positive
  \<open>max_size\<close> (100 for the global cache), the keys stay distinct and the number of entries
  never exceeds \<open>max_size\<close>. A \<open>set\<close> on a cache that holds \<open>max_size\<close> entries (or more)
  first deletes an entry whose timestamp is the least of all stored timestamps and then
  inserts the new entry; a \<open>set\<close> on a cache with room inserts it directly; in both cases
  the key maps to the new response and timestamp afterwards, whatever it mapped to before.
\<close>

theorem cache_size_bound:
  assumes "0 < ms"
  shows "int (length (cache (run_cache py_hash (ResponseCache_init ms ttl) ops))) \<le> ms
   \<and> distinct (map fst (cache (run_cache py_hash (ResponseCache_init ms ttl) ops)))
   \<and> (\<forall>c now prompt response provider.
        0 < max_size c \<and> max_size c \<le> int (length (cache c)) \<longrightarrow>
        (\<exists>old r t. (old, r, t) \<in> set (cache c) \<and> (\<forall>e\<in>set (cache c). t \<le> snd (snd e))
           \<and> cache_set py_hash c now prompt response provider
             = Inr (c\<lparr>cache := AList.update (make_key py_hash prompt provider) (response, now)
                                 (AList.delete old (cache c))\<rparr>)))
   \<and> (\<forall>c now prompt response provider.
        int (length (cache c)) < max_size c \<longrightarrow>
        cache_set py_hash c now prompt response provider
          = Inr (c\<lparr>cache := AList.update (make_key py_hash prompt provider) (response, now)
                              (cache c)\<rparr>))
   \<and> (\<forall>c now prompt response provider c'.
        cache_set py_hash c now prompt response provider = Inr c' \<longrightarrow>
        map_of (cache c') (make_key py_hash prompt provider) = Some (response, now))
   \<and> max_size response_cache_default = 100"
proof -
  have inv: "cache_inv (run_cache py_hash (ResponseCache_init ms ttl) ops)"
    using assms by (intro cache_inv_run cache_inv_init)
  have ms: "max_size (run_cache py_hash (ResponseCache_init ms ttl) ops) = ms"
    by (simp add: run_cache_max_size ResponseCache_init_def)
  have c1: "int (length (cache (run_cache py_hash (ResponseCache_init ms ttl) ops))) \<le> ms"
    using inv ms by (simp add: cache_inv_def)
  have c2: "distinct (map fst (cache (run_cache py_hash (ResponseCache_init ms ttl) ops)))"
    using inv by (simp add: cache_inv_def)
  have c3: "\<forall>c now prompt response provider.
        0 < max_size c \<and> max_size c \<le> int (length (cache c)) \<longrightarrow>
        (\<exists>old r t. (old, r, t) \<in> set (cache c) \<and> (\<forall>e\<in>set (cache c). t \<le> snd (snd e))
           \<and> cache_set py_hash c now prompt response provider
             = Inr (c\<lparr>cache := AList.update (make_key py_hash prompt provider) (response, now)
                                 (AList.delete old (cache c))\<rparr>))"
  proof (intro allI impI)
    fix c :: response_cache and now prompt response provider
    assume a: "0 < max_size c \<and> max_size c \<le> int (length (cache c))"
    then have full: "max_size c \<le> int (length (cache c))" and ne: "cache c \<noteq> []" by auto
    from cache_set_full [OF full ne]
    show "\<exists>old r t. (old, r, t) \<in> set (cache c) \<and> (\<forall>e\<in>set (cache c). t \<le> snd (snd e))
           \<and> cache_set py_hash c now prompt response provider
             = Inr (c\<lparr>cache := AList.update (make_key py_hash prompt provider) (response, now)
                                 (AList.delete old (cache c))\<rparr>)" .
  qed
  have c4: "\<forall>c now prompt response provider.
        int (length (cache c)) < max_size c \<longrightarrow>
        cache_set py_hash c now prompt response provider
          = Inr (c\<lparr>cache := AList.update (make_key py_hash prompt provider) (response, now)
                              (cache c)\<rparr>)"
    by (simp add: cache_set_room)
  have c5: "\<forall>c now prompt response provider c'.
        cache_set py_hash c now prompt response provider = Inr c' \<longrightarrow>
        map_of (cache c') (make_key py_hash prompt provider) = Some (response, now)"
    using cache_set_lookup by blast
  have c6: "max_size response_cache_default = 100"
    by (simp add: response_cache_default_def ResponseCache_init_def)
  show ?thesis
    by (intro conjI) (rule c1 c2 c3 c4 c5 c6)+
qed

theorem cache_size_bound_witness:
  "(0::int) < 2
   \<and> cache (run_cache (\<lambda>s. int (length s)) (ResponseCache_init 2 300)
        [CacheSet 1 ''a'' ''first'' '''', CacheSet 2 ''bb'' ''second'' '''',
         CacheGet 3 ''a'' '''', CacheSet 4 ''ccc'' ''third'' ''''])
     = [(10, ''second'', 2), (11, ''third'', 4)]
   \<and> int (length (cache (run_cache (\<lambda>s. int (length s)) (ResponseCache_init 2 300)
        [CacheSet 1 ''a'' ''first'' '''', CacheSet 2 ''bb'' ''second'' '''',
         CacheGet 3 ''a'' '''', CacheSet 4 ''ccc'' ''third'' '''']))) \<le> 2"
proof -
  let ?h = "\<lambda>s :: string. int (length s)"
  let ?ops = "[CacheSet 1 ''a'' ''first'' '''', CacheSet 2 ''bb'' ''second'' '''',
         CacheGet 3 ''a'' '''', CacheSet 4 ''ccc'' ''third'' '''']"
  have pos: "(0::int) < 2" by simp
  have k: "make_key ?h ''a'' '''' = 9" "make_key ?h ''bb'' '''' = 10" "make_key ?h ''ccc'' '''' = 11"
    by (simp_all add: make_key_def strip_def lower_def lower_char_def is_space_def)
  have run: "cache (run_cache ?h (ResponseCache_init 2 300) ?ops)
     = [(10, ''second'', 2), (11, ''third'', 4)]"
    by (simp add: run_cache_def cache_set_def cache_get_def k oldest_key_def
        ResponseCache_init_def)
  from cache_size_bound [OF pos, of ?h 300 ?ops]
  have "int (length (cache (run_cache ?h (ResponseCache_init 2 300) ?ops))) \<le> 2" by blast
  with pos run show ?thesis by (intro conjI)
qed

section \<open>Properties of ConversationStore\<close>

lemma purge_expired_config:
  "max_messages (purge_expired s now) = max_messages s
   \<and> session_ttl_seconds (purge_expired s now) = session_ttl_seconds s"
  by (simp add: purge_expired_def)

lemma purge_expired_lookup:
  "messages (purge_expired s now) sid =
     (case messages s sid of None \<Rightarrow> None
      | Some msgs \<Rightarrow> if session_expired s now msgs then None else Some msgs)"
  by (simp add: purge_expired_def)

lemma purge_expired_Some:
  "messages (purge_expired s now) sid = Some msgs \<Longrightarrow> messages s sid = Some msgs"
  by (simp add: purge_expired_lookup split: option.splits if_splits)

lemma store_inv_purge: "store_inv s \<Longrightarrow> store_inv (purge_expired s now)"
  unfolding store_inv_def
  by (auto simp: purge_expired_config dest: purge_expired_Some)

lemma store_add_config:
  "max_messages (snd (store_add s tp ts sid role content)) = max_messages s"
  by (simp add: store_add_def Let_def purge_expired_config split: option.splits)

lemma store_get_config:
  "max_messages (snd (store_get s now sid)) = max_messages s"
  by (simp add: store_get_def Let_def purge_expired_config split: option.splits)

lemma store_inv_add:
  assumes "store_inv s"
  shows "store_inv (snd (store_add s tp ts sid role content))"
proof -
  let ?s1 = "purge_expired s tp"
  have inv1: "store_inv ?s1" using assms by (rule store_inv_purge)
  show ?thesis
  proof (cases "messages ?s1 sid")
    case None
    show ?thesis
    proof (cases "max_messages ?s1 < 0")
      case True
      with None inv1 show ?thesis by (simp add: store_add_def Let_def)
    next
      case False
      then have "length (deque_append (nat (max_messages ?s1)) [] (role, content, ts))
          \<le> nat (max_messages ?s1)" by (intro deque_append_length) simp
      with False have "int (length (deque_append (nat (max_messages ?s1)) [] (role, content, ts)))
          \<le> max_messages ?s1" by linarith
      with None False inv1 show ?thesis
        by (auto simp: store_add_def Let_def store_inv_def)
    qed
  next
    case (Some msgs)
    with inv1 have le: "int (length msgs) \<le> max_messages ?s1" by (simp add: store_inv_def)
    then have "length msgs \<le> nat (max_messages ?s1)" by linarith
    then have "length (deque_append (nat (max_messages ?s1)) msgs (role, content, ts))
          \<le> nat (max_messages ?s1)" by (rule deque_append_length)
    with le have "int (length (deque_append (nat (max_messages ?s1)) msgs (role, content, ts)))
          \<le> max_messages ?s1" by linarith
    with Some inv1 show ?thesis
      by (auto simp: store_add_def Let_def store_inv_def)
  qed
qed

lemma store_inv_get: "store_inv s \<Longrightarrow> store_inv (snd (store_get s now sid))"
  by (simp add: store_get_def Let_def store_inv_purge split: option.splits)

lemma store_inv_run: "store_inv s \<Longrightarrow> store_inv (run_store s ops)"
  unfolding run_store_def
proof (induction ops arbitrary: s)
  case Nil
  then show ?case by simp
next
  case (Cons op ops)
  have "store_inv (apply_store_op s op)"
    using Cons.prems by (cases op) (simp_all add: store_inv_add store_inv_get)
  from Cons.IH [OF this] show ?case by simp
qed

lemma run_store_config: "max_messages (run_store s ops) = max_messages s"
  unfolding run_store_def
proof (induction ops arbitrary: s)
  case Nil
  show ?case by simp
next
  case (Cons op ops)
  have "max_messages (apply_store_op s op) = max_messages s"
    by (cases op) (simp_all add: store_add_config store_get_config)
  with Cons.IH [of "apply_store_op s op"] show ?case by simp
qed

lemma store_add_live:
  assumes "messages s sid = Some msgs" and "\<not> session_expired s tp msgs"
  shows "store_add s tp ts sid role content =
     (None, (purge_expired s tp)\<lparr>messages := (messages (purge_expired s tp))(sid \<mapsto>
        deque_append (nat (max_messages s)) msgs (role, content, ts))\<rparr>)"
  using assms by (simp add: store_add_def Let_def purge_expired_lookup purge_expired_config)

lemma store_get_live:
  assumes "messages s sid = Some msgs" and "\<not> session_expired s now msgs"
  shows "store_get s now sid = (map turn_dict msgs, purge_expired s now)"
  using assms by (simp add: store_get_def Let_def purge_expired_lookup)

lemma store_get_unknown:
  "messages s sid = None \<Longrightarrow> fst (store_get s now sid) = []"
  by (simp add: store_get_def Let_def purge_expired_lookup)

lemma deque_append_last:
  "deque_append n xs x \<noteq> [] \<Longrightarrow> last (deque_append n xs x) = x"
  by (cases xs) (simp_all add: deque_append_def Let_def split: if_splits)

lemma store_add_then_get:
  assumes live: "messages s sid = Some msgs" "\<not> session_expired s tp msgs"
    and fresh: "\<not> now - ts > real_of_int (session_ttl_seconds s)"
  shows "fst (store_get (snd (store_add s tp ts sid role content)) now sid)
     = map turn_dict (deque_append (nat (max_messages s)) msgs (role, content, ts))"
proof -
  let ?new = "deque_append (nat (max_messages s)) msgs (role, content, ts)"
  let ?s' = "snd (store_add s tp ts sid role content)"
  have m: "messages ?s' sid = Some ?new"
    by (simp add: store_add_live [OF live])
  have ttl: "session_ttl_seconds ?s' = session_ttl_seconds s"
    by (simp add: store_add_live [OF live] purge_expired_config)
  have "?new \<noteq> [] \<longrightarrow> last ?new = (role, content, ts)"
    by (simp add: deque_append_last)
  with fresh ttl have "\<not> session_expired ?s' now ?new"
    by (auto simp: session_expired_def)
  from store_get_live [OF m this] show ?thesis by simp
qed

text \<open>
  C9: after every sequence of \<open>add\<close> and \<open>get\<close> calls on a fresh store, no session holds
  more than \<open>max_messages\<close> turns (50 for the global store). For a session that the purge
  of the call keeps (its most recent turn is not older than \<open>ttl_seconds\<close>): \<open>get\<close> returns
  its turns in stored order, oldest first; \<open>add\<close> to a session with room appends the turn
  at the end; \<open>add\<close> to a session that already holds \<open>max_messages\<close> turns drops exactly
  the oldest turn, keeps the others in order and appends the new turn, and a following
  \<open>get\<close> shows this history.
\<close>

theorem history_bound:
  "(\<forall>sid msgs. messages (run_store (ConversationStore_init mm ttl) ops) sid = Some msgs
       \<longrightarrow> int (length msgs) \<le> mm)
   \<and> (messages s session_id = Some msgs \<and> \<not> session_expired s now msgs \<longrightarrow>
        fst (store_get s now session_id) = map turn_dict msgs)
   \<and> (messages s session_id = Some msgs \<and> \<not> session_expired s t_purge msgs
        \<and> int (length msgs) < max_messages s \<longrightarrow>
        fst (store_add s t_purge t_stamp session_id role content) = None
        \<and> messages (snd (store_add s t_purge t_stamp session_id role content)) session_id
            = Some (msgs @ [(role, content, t_stamp)]))
   \<and> (messages s session_id = Some msgs \<and> \<not> session_expired s t_purge msgs
        \<and> int (length msgs) = max_messages s \<and> 0 < max_messages s \<longrightarrow>
        fst (store_add s t_purge t_stamp session_id role content) = None
        \<and> messages (snd (store_add s t_purge t_stamp session_id role content)) session_id
            = Some (tl msgs @ [(role, content, t_stamp)])
        \<and> length (tl msgs @ [(role, content, t_stamp)]) = length msgs
        \<and> (\<not> now - t_stamp > real_of_int (session_ttl_seconds s) \<longrightarrow>
             fst (store_get (snd (store_add s t_purge t_stamp session_id role content))
                    now session_id)
               = tl (fst (store_get s t_purge session_id)) @ [(role, content)]))
   \<and> max_messages conversation_store_default = 50"
proof -
  have inv: "store_inv (run_store (ConversationStore_init mm ttl) ops)"
    by (rule store_inv_run) (simp add: store_inv_def ConversationStore_init_def)
  have c1: "\<forall>sid msgs. messages (run_store (ConversationStore_init mm ttl) ops) sid = Some msgs
       \<longrightarrow> int (length msgs) \<le> mm"
    using inv by (simp add: store_inv_def run_store_config ConversationStore_init_def)
  have c2: "messages s session_id = Some msgs \<and> \<not> session_expired s now msgs \<longrightarrow>
        fst (store_get s now session_id) = map turn_dict msgs"
    by (simp add: store_get_live)
  have c3: "messages s session_id = Some msgs \<and> \<not> session_expired s t_purge msgs
        \<and> int (length msgs) < max_messages s \<longrightarrow>
        fst (store_add s t_purge t_stamp session_id role content) = None
        \<and> messages (snd (store_add s t_purge t_stamp session_id role content)) session_id
            = Some (msgs @ [(role, content, t_stamp)])"
  proof (intro impI, elim conjE)
    assume live: "messages s session_id = Some msgs" "\<not> session_expired s t_purge msgs"
      and room: "int (length msgs) < max_messages s"
    from room have "length msgs < nat (max_messages s)" by linarith
    then have "deque_append (nat (max_messages s)) msgs (role, content, t_stamp)
        = msgs @ [(role, content, t_stamp)]" by (rule deque_append_room)
    then show "fst (store_add s t_purge t_stamp session_id role content) = None
        \<and> messages (snd (store_add s t_purge t_stamp session_id role content)) session_id
            = Some (msgs @ [(role, content, t_stamp)])"
      by (simp add: store_add_live [OF live])
  qed
  have c4: "messages s session_id = Some msgs \<and> \<not> session_expired s t_purge msgs
        \<and> int (length msgs) = max_messages s \<and> 0 < max_messages s \<longrightarrow>
        fst (store_add s t_purge t_stamp session_id role content) = None
        \<and> messages (snd (store_add s t_purge t_stamp session_id role content)) session_id
            = Some (tl msgs @ [(role, content, t_stamp)])
        \<and> length (tl msgs @ [(role, content, t_stamp)]) = length msgs
        \<and> (\<not> now - t_stamp > real_of_int (session_ttl_seconds s) \<longrightarrow>
             fst (store_get (snd (store_add s t_purge t_stamp session_id role content))
                    now session_id)
               = tl (fst (store_get s t_purge session_id)) @ [(role, content)])"
  proof (intro impI, elim conjE)
    assume live: "messages s session_id = Some msgs" "\<not> session_expired s t_purge msgs"
      and full: "int (length msgs) = max_messages s" and pos: "0 < max_messages s"
    from full pos have n: "length msgs = nat (max_messages s)" "0 < nat (max_messages s)"
      by linarith+
    then have d: "deque_append (nat (max_messages s)) msgs (role, content, t_stamp)
        = tl msgs @ [(role, content, t_stamp)]" by (rule deque_append_full)
    from n have ne: "msgs \<noteq> []" by auto
    have a: "fst (store_add s t_purge t_stamp session_id role content) = None"
      by (simp add: store_add_live [OF live])
    have b: "messages (snd (store_add s t_purge t_stamp session_id role content)) session_id
            = Some (tl msgs @ [(role, content, t_stamp)])"
      by (simp add: store_add_live [OF live] d)
    have c: "length (tl msgs @ [(role, content, t_stamp)]) = length msgs"
      using ne by (cases msgs) simp_all
    have e: "\<not> now - t_stamp > real_of_int (session_ttl_seconds s) \<longrightarrow>
             fst (store_get (snd (store_add s t_purge t_stamp session_id role content))
                    now session_id)
               = tl (fst (store_get s t_purge session_id)) @ [(role, content)]"
    proof
      assume fresh: "\<not> now - t_stamp > real_of_int (session_ttl_seconds s)"
      from store_add_then_get [OF live fresh, of role content]
      show "fst (store_get (snd (store_add s t_purge t_stamp session_id role content))
                    now session_id)
               = tl (fst (store_get s t_purge session_id)) @ [(role, content)]"
        by (simp add: d store_get_live [OF live] map_tl turn_dict_def)
    qed
    from a b c e show "fst (store_add s t_purge t_stamp session_id role content) = None
        \<and> messages (snd (store_add s t_purge t_stamp session_id role content)) session_id
            = Some (tl msgs @ [(role, content, t_stamp)])
        \<and> length (tl msgs @ [(role, content, t_stamp)]) = length msgs
        \<and> (\<not> now - t_stamp > real_of_int (session_ttl_seconds s) \<longrightarrow>
             fst (store_get (snd (store_add s t_purge t_stamp session_id role content))
                    now session_id)
               = tl (fst (store_get s t_purge session_id)) @ [(role, content)])"
      by (intro conjI)
  qed
  have c5: "max_messages conversation_store_default = 50"
    by (simp add: conversation_store_default_def ConversationStore_init_def)
  show ?thesis
    by (intro conjI) (rule c1 c2 c3 c4 c5)+
qed

theorem history_bound_witness:
  "messages (run_store (ConversationStore_init 2 3600)
       [StoreAdd 0 0 ''s1'' ''user'' ''one'', StoreAdd 1 1 ''s1'' ''assistant'' ''two'']) ''s1''
     = Some [(''user'', ''one'', 0), (''assistant'', ''two'', 1)]
   \<and> fst (store_get (snd (store_add (run_store (ConversationStore_init 2 3600)
       [StoreAdd 0 0 ''s1'' ''user'' ''one'', StoreAdd 1 1 ''s1'' ''assistant'' ''two''])
       2 2 ''s1'' ''user'' ''three'')) 3 ''s1'')
     = [(''assistant'', ''two''), (''user'', ''three'')]"
proof -
  let ?s = "run_store (ConversationStore_init 2 3600)
       [StoreAdd 0 0 ''s1'' ''user'' ''one'', StoreAdd 1 1 ''s1'' ''assistant'' ''two'']"
  let ?msgs = "[(''user'', ''one'', 0 :: real), (''assistant'', ''two'', 1)]"
  have m: "messages ?s ''s1'' = Some ?msgs"
    by (simp add: run_store_def store_add_def purge_expired_def session_expired_def
        deque_append_def ConversationStore_init_def Let_def)
  have cfg: "max_messages ?s = 2" "session_ttl_seconds ?s = 3600"
    by (simp_all add: run_store_def store_add_def purge_expired_def
        ConversationStore_init_def Let_def split: option.splits)
  have live: "\<not> session_expired ?s 2 ?msgs"
    by (simp add: session_expired_def cfg)
  have pre: "messages ?s ''s1'' = Some ?msgs \<and> \<not> session_expired ?s 2 ?msgs
        \<and> int (length ?msgs) = max_messages ?s \<and> 0 < max_messages ?s"
    using m live by (simp add: cfg)
  have fresh: "\<not> 3 - 2 > real_of_int (session_ttl_seconds ?s)" by (simp add: cfg)
  note full = history_bound [of _ _ _ ?s "''s1''" ?msgs 3 2 2 "''user''" "''three''",
      THEN conjunct2, THEN conjunct2, THEN conjunct2, THEN conjunct1, rule_format, OF pre]
  from full [THEN conjunct2, THEN conjunct2, THEN conjunct2, rule_format, OF fresh]
  have "fst (store_get (snd (store_add ?s 2 2 ''s1'' ''user'' ''three'')) 3 ''s1'')
     = tl (fst (store_get ?s 2 ''s1'')) @ [(''user'', ''three'')]" .
  moreover have "fst (store_get ?s 2 ''s1'') = map turn_dict ?msgs"
    using m live by (simp add: store_get_live)
  ultimately have g: "fst (store_get (snd (store_add ?s 2 2 ''s1'' ''user'' ''three'')) 3 ''s1'')
     = [(''assistant'', ''two''), (''user'', ''three'')]"
    by (simp add: turn_dict_def)
  from m g show ?thesis by (intro conjI)
qed

section \<open>Properties of the dialogue handler\<close>

lemma cache_set_succeeds:
  assumes "0 < max_size c"
  shows "\<exists>c'. cache_set h c now p resp prov = Inr c'"
proof (cases "max_size c \<le> int (length (cache c))")
  case True
  with assms have "cache c \<noteq> []" by auto
  from cache_set_full [OF True this, of h now p resp prov] show ?thesis by blast
next
  case False
  then have "int (length (cache c)) < max_size c" by simp
  from cache_set_room [OF this] show ?thesis by blast
qed

lemma get_llm_response_miss_ok:
  assumes miss: "truthy (fst (cache_get h c t_get user_text (normalize_provider st provider))) = None"
    and ok: "call_provider st env (normalize_provider st provider) user_text key
               = Inr (response_text, source)"
    and size: "0 < max_size c"
  shows "fst (get_llm_response st env h c t_get t_set user_text provider key)
           = Inr (response_text, source)
     \<and> map_of (cache (snd (get_llm_response st env h c t_get t_set user_text provider key)))
          (make_key h user_text (normalize_provider st provider)) = Some (response_text, t_set)"
proof -
  let ?p = "normalize_provider st provider"
  obtain cached c1 where g: "cache_get h c t_get user_text ?p = (cached, c1)"
    by (cases "cache_get h c t_get user_text ?p")
  from g miss have t: "truthy cached = None" by simp
  from cache_get_keeps_config [of h c t_get user_text ?p] g size
  have "0 < max_size c1" by simp
  from cache_set_succeeds [OF this] obtain c2
    where s: "cache_set h c1 t_set user_text response_text ?p = Inr c2" by blast
  from cache_set_lookup [OF s]
  have look: "map_of (cache c2) (make_key h user_text ?p) = Some (response_text, t_set)" by simp
  have "get_llm_response st env h c t_get t_set user_text provider key
          = (Inr (response_text, source), c2)"
    by (simp add: get_llm_response_def Let_def g t ok s)
  with look show ?thesis by simp
qed

lemma get_llm_response_miss_fail:
  assumes miss: "truthy (fst (cache_get h c t_get user_text (normalize_provider st provider))) = None"
    and fail: "call_provider st env (normalize_provider st provider) user_text key = Inl e"
  shows "get_llm_response st env h c t_get t_set user_text provider key
           = (Inl e, snd (cache_get h c t_get user_text (normalize_provider st provider)))"
proof -
  let ?p = "normalize_provider st provider"
  obtain cached c1 where g: "cache_get h c t_get user_text ?p = (cached, c1)"
    by (cases "cache_get h c t_get user_text ?p")
  from g miss have t: "truthy cached = None" by simp
  show ?thesis by (simp add: get_llm_response_def Let_def g t fail)
qed

lemma post_cache:
  assumes "strip (req_text req) \<noteq> []"
    and "fst (is_allowed (rate_limiter_st w) (t_allowed clk) (get_client_ip req))"
  shows "response_cache_st (snd (post st env h clk w req))
     = snd (get_llm_response st env h (response_cache_st w) (t_cache_get clk) (t_cache_set clk)
              (strip (req_text req)) (request_provider st req) (req_api_key req))"
  using assms
  by (simp add: post_def Let_def case_prod_beta split: option.splits)


lemma post_response:
  assumes "strip (req_text req) \<noteq> []"
    and "fst (is_allowed (rate_limiter_st w) (t_allowed clk) (get_client_ip req))"
    and "0 \<le> max_messages (conversation_store_st w)"
  shows "fst (post st env h clk w req)
     = (case fst (get_llm_response st env h (response_cache_st w) (t_cache_get clk)
                    (t_cache_set clk) (strip (req_text req)) (request_provider st req)
                    (req_api_key req)) of
          Inl e \<Rightarrow> Response200 (get_fallback_response env (strip (req_text req))) ''fallback''
                     (py_int ((t_end clk - t_start clk) * 1000)) (request_session_id clk req)
        | Inr rs \<Rightarrow> Response200 (fst rs) (snd rs)
                     (py_int ((t_end clk - t_start clk) * 1000)) (request_session_id clk req))"
proof -
  have add_ok: "fst (store_add s tp ts sid role content) = None" if "0 \<le> max_messages s"
    for s tp ts sid role content
    using that by (simp add: store_add_def Let_def purge_expired_config split: option.splits)
  have cfg: "max_messages (snd (store_add s tp ts sid role content)) = max_messages s"
    for s tp ts sid role content by (rule store_add_config)
  show ?thesis
    using assms
    by (simp add: post_def Let_def case_prod_beta add_ok cfg split: sum.splits)
qed

lemma example_valid: "strip (req_text example_request) = ''I feel sad today''"
  by (simp add: example_request_def strip_def is_space_def)

lemma example_admitted:
  "fst (is_allowed (rate_limiter_st (app_state_init 10)) (t_allowed example_clock)
          (get_client_ip example_request))"
  by (simp add: is_allowed_result window_of_def app_state_init_def RateLimiter_init_def)

lemma example_miss:
  "cache_get h (response_cache_st (app_state_init 10)) t p prov
     = (None, response_cache_default)"
  by (simp add: cache_get_def app_state_init_def response_cache_default_def
      ResponseCache_init_def)

lemma example_provider:
  "normalize_provider settings_without_key (request_provider settings_without_key example_request)
     = ''gemini''"
  by (simp add: normalize_provider_def request_provider_def settings_without_key_def
      example_request_def lower_def lower_char_def)

lemma example_fallback:
  "get_fallback_response example_env ''I feel sad today'' = hd FALLBACK_RESPONSES"
  by (simp add: get_fallback_response_def example_env_def strip_def lower_def lower_char_def
      is_space_def startswith_def)

text \<open>
  C6, as stated, on the fallback path: no Gemini key is configured, so the provider raises
  and the canned responder produces the response; the handler returns it with source
  \<^verbatim>\<open>fallback\<close>, and the cache is as empty as before: a later \<open>get\<close> for the prompt misses.
\<close>

theorem post_fallback_not_cached_counterexample:
  "fst (post settings_without_key example_env length_hash example_clock (app_state_init 10)
          example_request)
     = Response200 (hd FALLBACK_RESPONSES) ''fallback'' 1250 ''0f8fad5bd9cb469fa16570867728950e''
   \<and> cache (response_cache_st (snd (post settings_without_key example_env length_hash
        example_clock (app_state_init 10) example_request))) = []
   \<and> fst (cache_get length_hash (response_cache_st (snd (post settings_without_key example_env
        length_hash example_clock (app_state_init 10) example_request)))
        102 ''I feel sad today'' ''gemini'') = None"
proof -
  let ?post = "post settings_without_key example_env length_hash example_clock
      (app_state_init 10) example_request"
  have valid: "strip (req_text example_request) \<noteq> []" by (simp add: example_valid)
  have fail: "call_provider settings_without_key example_env ''gemini'' ''I feel sad today''
      (req_api_key example_request) = Inl (ProviderError ''No Gemini API key configured'')"
    by (simp add: call_provider_def get_gemini_response_def select_api_key_def
        settings_without_key_def example_request_def)
  have llm: "get_llm_response settings_without_key example_env length_hash
      (response_cache_st (app_state_init 10)) (t_cache_get example_clock)
      (t_cache_set example_clock) (strip (req_text example_request))
      (request_provider settings_without_key example_request) (req_api_key example_request)
     = (Inl (ProviderError ''No Gemini API key configured''), response_cache_default)"
    by (rule trans [OF get_llm_response_miss_fail])
       (simp_all add: example_provider example_valid example_miss truthy_def fail)
  have store: "0 \<le> max_messages (conversation_store_st (app_state_init 10))"
    by (simp add: app_state_init_def conversation_store_default_def ConversationStore_init_def)
  have lat: "py_int ((t_end example_clock - t_start example_clock) * 1000) = 1250"
    by (simp add: py_int_def example_clock_def)
  have sid: "request_session_id example_clock example_request
      = ''0f8fad5bd9cb469fa16570867728950e''"
    by (simp add: request_session_id_def example_clock_def example_request_def)
  have r: "fst ?post
     = Response200 (hd FALLBACK_RESPONSES) ''fallback'' 1250 ''0f8fad5bd9cb469fa16570867728950e''"
    by (simp only: post_response [OF valid example_admitted store] llm
        llm [unfolded example_valid] lat sid example_valid example_fallback sum.case fst_conv)
  have c: "response_cache_st (snd ?post) = response_cache_default"
    by (simp add: post_cache [OF valid example_admitted] llm)
  have e: "cache response_cache_default = []"
    by (simp add: response_cache_default_def ResponseCache_init_def)
  have g: "fst (cache_get length_hash response_cache_default 102 ''I feel sad today'' ''gemini'')
      = None"
    by (simp add: cache_get_def e)
  show ?thesis
    by (intro conjI) (simp_all only: r c e g)
qed

text \<open>
  C6 (amended): for every dialogue request that passes validation and rate limiting and
  whose response is not served from the cache, with a cache of positive \<open>max_size\<close>: when
  the chosen provider returns a response, the handler stores it in the cache under the
  key of the prompt and the normalized provider, with the time of the \<open>set\<close>, before
  returning, and returns that response; when the provider fails and the canned fallback
  responder produces the response, the handler returns it with source \<^verbatim>\<open>fallback\<close> and
  leaves the cache as the lookup left it, without an entry for the response.
\<close>

theorem post_populates_cache:
  assumes valid: "strip (req_text req) \<noteq> []"
    and admitted: "fst (is_allowed (rate_limiter_st w) (t_allowed clk) (get_client_ip req))"
    and miss: "truthy (fst (cache_get py_hash (response_cache_st w) (t_cache_get clk)
                 (strip (req_text req)) (normalize_provider st (request_provider st req)))) = None"
    and size: "0 < max_size (response_cache_st w)"
    and store: "0 \<le> max_messages (conversation_store_st w)"
  shows "(call_provider st env (normalize_provider st (request_provider st req))
            (strip (req_text req)) (req_api_key req) = Inr (response_text, source) \<longrightarrow>
          map_of (cache (response_cache_st (snd (post st env py_hash clk w req))))
            (make_key py_hash (strip (req_text req))
               (normalize_provider st (request_provider st req)))
            = Some (response_text, t_cache_set clk)
          \<and> fst (post st env py_hash clk w req)
            = Response200 response_text source (py_int ((t_end clk - t_start clk) * 1000))
                (request_session_id clk req))
   \<and> (call_provider st env (normalize_provider st (request_provider st req))
            (strip (req_text req)) (req_api_key req) = Inl e \<longrightarrow>
          response_cache_st (snd (post st env py_hash clk w req))
            = snd (cache_get py_hash (response_cache_st w) (t_cache_get clk)
                 (strip (req_text req)) (normalize_provider st (request_provider st req)))
          \<and> fst (post st env py_hash clk w req)
            = Response200 (get_fallback_response env (strip (req_text req))) ''fallback''
                (py_int ((t_end clk - t_start clk) * 1000)) (request_session_id clk req))"
proof (intro conjI impI)
  assume ok: "call_provider st env (normalize_provider st (request_provider st req))
            (strip (req_text req)) (req_api_key req) = Inr (response_text, source)"
  note llm = get_llm_response_miss_ok [OF miss ok size, of "t_cache_set clk"]
  show "map_of (cache (response_cache_st (snd (post st env py_hash clk w req))))
            (make_key py_hash (strip (req_text req))
               (normalize_provider st (request_provider st req)))
            = Some (response_text, t_cache_set clk)"
    using llm by (simp add: post_cache [OF valid admitted])
  show "fst (post st env py_hash clk w req)
            = Response200 response_text source (py_int ((t_end clk - t_start clk) * 1000))
                (request_session_id clk req)"
    using llm by (simp add: post_response [OF valid admitted store])
next
  assume fail: "call_provider st env (normalize_provider st (request_provider st req))
            (strip (req_text req)) (req_api_key req) = Inl e"
  note llm = get_llm_response_miss_fail [OF miss fail, of "t_cache_set clk"]
  show "response_cache_st (snd (post st env py_hash clk w req))
            = snd (cache_get py_hash (response_cache_st w) (t_cache_get clk)
                 (strip (req_text req)) (normalize_provider st (request_provider st req)))"
    by (simp add: post_cache [OF valid admitted] llm)
  show "fst (post st env py_hash clk w req)
            = Response200 (get_fallback_response env (strip (req_text req))) ''fallback''
                (py_int ((t_end clk - t_start clk) * 1000)) (request_session_id clk req)"
    by (simp add: post_response [OF valid admitted store] llm)
qed

theorem post_populates_cache_witness:
  "strip (req_text (example_request\<lparr>req_api_key := ''user-key''\<rparr>)) \<noteq> []
   \<and> fst (is_allowed (rate_limiter_st (app_state_init 10)) (t_allowed example_clock)
          (get_client_ip (example_request\<lparr>req_api_key := ''user-key''\<rparr>)))
   \<and> map_of (cache (response_cache_st (snd (post settings_without_key example_env length_hash
        example_clock (app_state_init 10) (example_request\<lparr>req_api_key := ''user-key''\<rparr>)))))
        (make_key length_hash ''I feel sad today'' ''gemini'')
      = Some (''I hear you.'', 101)
   \<and> fst (post settings_without_key example_env length_hash example_clock (app_state_init 10)
        (example_request\<lparr>req_api_key := ''user-key''\<rparr>))
      = Response200 ''I hear you.'' ''gemini'' 1250 ''0f8fad5bd9cb469fa16570867728950e''"
proof -
  let ?req = "example_request\<lparr>req_api_key := ''user-key''\<rparr>"
  have stripped: "strip (req_text ?req) = ''I feel sad today''"
    using example_valid by simp
  then have valid: "strip (req_text ?req) \<noteq> []" by simp
  have ip: "get_client_ip ?req = get_client_ip example_request"
    by (simp add: get_client_ip_def example_request_def)
  have admitted: "fst (is_allowed (rate_limiter_st (app_state_init 10)) (t_allowed example_clock)
          (get_client_ip ?req))"
    using example_admitted by (simp only: ip)
  have prov: "normalize_provider settings_without_key (request_provider settings_without_key ?req)
     = ''gemini''"
    using example_provider by (simp add: request_provider_def)
  have miss: "truthy (fst (cache_get length_hash (response_cache_st (app_state_init 10))
        (t_cache_get example_clock) (strip (req_text ?req))
        (normalize_provider settings_without_key (request_provider settings_without_key ?req))))
      = None"
    by (simp add: example_miss truthy_def)
  have size: "0 < max_size (response_cache_st (app_state_init 10))"
    by (simp add: app_state_init_def response_cache_default_def ResponseCache_init_def)
  have store: "0 \<le> max_messages (conversation_store_st (app_state_init 10))"
    by (simp add: app_state_init_def conversation_store_default_def ConversationStore_init_def)
  have ok: "call_provider settings_without_key example_env
        (normalize_provider settings_without_key (request_provider settings_without_key ?req))
        (strip (req_text ?req)) (req_api_key ?req) = Inr (''I hear you.'', ''gemini'')"
    by (simp add: prov call_provider_def get_gemini_response_def select_api_key_def
        example_env_def strip_def is_space_def)
  have lat: "py_int ((t_end example_clock - t_start example_clock) * 1000) = 1250"
    by (simp add: py_int_def example_clock_def)
  have sid: "request_session_id example_clock ?req = ''0f8fad5bd9cb469fa16570867728950e''"
    by (simp add: request_session_id_def example_clock_def example_request_def)
  have ts: "t_cache_set example_clock = 101" by (simp add: example_clock_def)
  from post_populates_cache [OF valid admitted miss size store,
      of example_env "''I hear you.''" "''gemini''", THEN conjunct1, rule_format, OF ok,
      unfolded prov stripped lat sid ts]
  have "map_of (cache (response_cache_st (snd (post settings_without_key example_env length_hash
        example_clock (app_state_init 10) ?req))))
        (make_key length_hash ''I feel sad today'' ''gemini'') = Some (''I hear you.'', 101)"
    and "fst (post settings_without_key example_env length_hash example_clock
        (app_state_init 10) ?req)
      = Response200 ''I hear you.'' ''gemini'' 1250 ''0f8fad5bd9cb469fa16570867728950e''"
    by simp_all
  with valid admitted show ?thesis by (intro conjI)
qed

section \<open>Properties of the streaming bridge\<close>

lemma sent_send: "sent (send cs ev) = sent cs @ [ev]"
  by (simp add: send_def)

lemma conv_store_send: "conv_store (send cs ev) = conv_store cs"
  by (simp add: send_def)

lemma sent_foldl_send: "sent (foldl send cs evs) = sent cs @ evs"
  by (induction evs arbitrary: cs) (simp_all add: sent_send)

lemma conv_store_foldl_send: "conv_store (foldl send cs evs) = conv_store cs"
  by (induction evs arbitrary: cs) (simp_all add: conv_store_send)

lemma consume_queue_produce:
  "consume_queue (map Some chunks @ [None]) cs collected
     = Some (foldl send cs (map Token chunks), collected @ chunks)"
  by (induction chunks arbitrary: cs collected) simp_all

lemma store_add_no_exception:
  "0 \<le> max_messages s \<Longrightarrow> fst (store_add s tp ts sid role content) = None"
  by (simp add: store_add_def Let_def purge_expired_config split: option.splits)

lemma persist_history_no_exception:
  assumes "0 \<le> max_messages s"
  shows "fst (persist_history s tup tus tap tas sid user_text response) = None"
proof (cases "sid = []")
  case True
  then show ?thesis by (simp add: persist_history_def)
next
  case False
  obtain e1 s1 where a: "store_add s tup tus sid ''user'' user_text = (e1, s1)"
    by (cases "store_add s tup tus sid ''user'' user_text")
  from store_add_no_exception [OF assms, of tup tus sid "''user''" user_text] a
  have e1: "e1 = None" by simp
  from store_add_config [of s tup tus sid "''user''" user_text] a assms
  have "0 \<le> max_messages s1" by simp
  then have "fst (store_add s1 tap tas sid ''assistant'' response) = None"
    by (rule store_add_no_exception)
  with False a e1 show ?thesis by (simp add: persist_history_def)
qed

lemma stream_llm_response_success:
  assumes producer: "get_llm_streaming_response st env user_text provider api_key = (chunks, None)"
    and store: "0 \<le> max_messages (conv_store cs)"
  shows "\<exists>cs1. stream_llm_response st env cs clk user_text provider api_key session_id
            = Some (None, cs1)
          \<and> sent cs1 = sent cs @ Start provider # map Token chunks @ [Done provider]"
proof -
  let ?cs3 = "send (foldl send (send cs (Start provider)) (map Token chunks)) (Done provider)"
  let ?p = "persist_history (conv_store ?cs3)
              (t_llm_user_purge clk) (t_llm_user_stamp clk)
              (t_llm_assistant_purge clk) (t_llm_assistant_stamp clk)
              session_id user_text (concat chunks)"
  have "0 \<le> max_messages (conv_store ?cs3)"
    using store by (simp add: conv_store_send conv_store_foldl_send)
  then have ok: "fst ?p = None" by (rule persist_history_no_exception)
  have "stream_llm_response st env cs clk user_text provider api_key session_id
      = Some (fst ?p, ?cs3\<lparr>conv_store := snd ?p\<rparr>)"
    by (simp add: stream_llm_response_def Let_def producer produce_def consume_queue_produce
        case_prod_beta)
  moreover have "sent (?cs3\<lparr>conv_store := snd ?p\<rparr>)
      = sent cs @ Start provider # map Token chunks @ [Done provider]"
    by (simp add: sent_send sent_foldl_send)
  ultimately show ?thesis using ok by simp
qed

lemma stream_llm_response_failure:
  assumes producer: "get_llm_streaming_response st env user_text provider api_key
                       = (chunks, Some e)"
  shows "stream_llm_response st env cs clk user_text provider api_key session_id
     = Some (Some e, foldl send (send cs (Start provider)) (map Token chunks))"
  by (simp add: stream_llm_response_def Let_def producer produce_def consume_queue_produce)

lemma stream_fallback_response_events:
  "sent (snd (stream_fallback_response env cs clk user_text session_id))
     = sent cs @ Start ''fallback''
         # map Token (paced_tokens (split_on_space (get_fallback_response env user_text)))
         @ [Done ''fallback'']"
  by (simp add: stream_fallback_response_def Let_def case_prod_beta sent_send sent_foldl_send)

lemma stream_fallback_response_returns:
  assumes "0 \<le> max_messages (conv_store cs)"
  shows "fst (stream_fallback_response env cs clk user_text session_id) = None"
proof -
  let ?cs3 = "send (foldl send (send cs (Start ''fallback''))
      (map Token (paced_tokens (split_on_space (get_fallback_response env user_text)))))
      (Done ''fallback'')"
  have "0 \<le> max_messages (conv_store ?cs3)"
    using assms by (simp add: conv_store_send conv_store_foldl_send)
  then have "fst (persist_history (conv_store ?cs3)
            (t_fb_user_purge clk) (t_fb_user_stamp clk)
            (t_fb_assistant_purge clk) (t_fb_assistant_stamp clk)
            session_id user_text (get_fallback_response env user_text)) = None"
    by (rule persist_history_no_exception)
  then show ?thesis
    by (simp add: stream_fallback_response_def Let_def case_prod_beta)
qed

lemma stream_response_success:
  assumes producer: "get_llm_streaming_response st env user_text (normalize_provider st provider)
                       (select_api_key st user_api_key) = (chunks, None)"
    and store: "0 \<le> max_messages (conv_store cs)"
  shows "\<exists>cs1. stream_response st env cs clk user_text provider user_api_key session_id
            = Some (None, cs1)
          \<and> sent cs1 = sent cs @ Start (normalize_provider st provider) # map Token chunks
                          @ [Done (normalize_provider st provider)]"
proof -
  from stream_llm_response_success [OF producer store, of clk session_id]
  obtain cs1 where "stream_llm_response st env cs clk user_text (normalize_provider st provider)
        (select_api_key st user_api_key) session_id = Some (None, cs1)"
    and "sent cs1 = sent cs @ Start (normalize_provider st provider) # map Token chunks
                          @ [Done (normalize_provider st provider)]" by blast
  then show ?thesis by (simp add: stream_response_def Let_def)
qed

lemma stream_response_failure:
  assumes producer: "get_llm_streaming_response st env user_text (normalize_provider st provider)
                       (select_api_key st user_api_key) = (chunks, Some e)"
    and store: "0 \<le> max_messages (conv_store cs)"
  shows "\<exists>cs1. stream_response st env cs clk user_text provider user_api_key session_id
            = Some (None, cs1)
          \<and> sent cs1 = sent cs @ Start (normalize_provider st provider) # map Token chunks
                @ Start ''fallback''
                # map Token (paced_tokens (split_on_space (get_fallback_response env user_text)))
                @ [Done ''fallback'']"
proof -
  let ?cs2 = "foldl send (send cs (Start (normalize_provider st provider))) (map Token chunks)"
  let ?fb = "stream_fallback_response env ?cs2 clk user_text session_id"
  have r: "stream_response st env cs clk user_text provider user_api_key session_id = Some ?fb"
    by (simp add: stream_response_def Let_def stream_llm_response_failure [OF producer])
  have "0 \<le> max_messages (conv_store ?cs2)"
    using store by (simp add: conv_store_send conv_store_foldl_send)
  then have ok: "fst ?fb = None" by (rule stream_fallback_response_returns)
  have ev: "sent (snd ?fb) = sent cs @ Start (normalize_provider st provider) # map Token chunks
                @ Start ''fallback''
                # map Token (paced_tokens (split_on_space (get_fallback_response env user_text)))
                @ [Done ''fallback'']"
    by (simp add: stream_fallback_response_events sent_foldl_send sent_send)
  from r ok ev show ?thesis by (cases ?fb) auto
qed

lemma receive_streams:
  assumes valid: "strip (ws_text data) \<noteq> []"
    and r: "stream_response st env cs clk (strip (ws_text data)) (ws_request_provider st data)
              (ws_api_key data) (ws_request_session_id clk data) = Some (None, cs1)"
  shows "receive st env cs clk (Payload data) = Some cs1"
  using assms by (simp add: receive_def Let_def)

lemma filter_tokens:
  "filter is_start (map Token xs) = []" "filter is_done (map Token xs) = []"
  "filter is_error (map Token xs) = []"
  by (induction xs) simp_all

lemma emitted_append: "sent cs1 = sent cs @ evs \<Longrightarrow> emitted cs (Some cs1) = evs"
  by (simp add: emitted_def)

text \<open>
  C3: a well-formed request whose streaming responder yields the fragments \<open>chunks\<close> and
  terminates without failure is answered, and the events sent for it are exactly
  \<open>start\<close>, one \<open>token\<close> per fragment in the order produced, and \<open>done\<close>, with no
  \<open>error\<close> event; for the fragments \<^verbatim>\<open>["Hel", "lo", " wor", "ld"]\<close> these are start,
  token("Hel"), token("lo"), token(" wor"), token("ld"), done. The conversation store
  is one whose \<open>max_messages\<close> is not negative, as the global store's is.
\<close>

theorem stream_success_events:
  assumes valid: "strip (ws_text data) \<noteq> []"
    and producer: "get_llm_streaming_response st env (strip (ws_text data))
                     (normalize_provider st (ws_request_provider st data))
                     (select_api_key st (ws_api_key data)) = (chunks, None)"
    and store: "0 \<le> max_messages (conv_store cs)"
  shows "receive st env cs clk (Payload data) \<noteq> None
   \<and> emitted cs (receive st env cs clk (Payload data))
       = Start (normalize_provider st (ws_request_provider st data)) # map Token chunks
           @ [Done (normalize_provider st (ws_request_provider st data))]
   \<and> (chunks = [''Hel'', ''lo'', '' wor'', ''ld''] \<longrightarrow>
        emitted cs (receive st env cs clk (Payload data))
          = [Start (normalize_provider st (ws_request_provider st data)),
             Token ''Hel'', Token ''lo'', Token '' wor'', Token ''ld'',
             Done (normalize_provider st (ws_request_provider st data))])
   \<and> filter is_error (emitted cs (receive st env cs clk (Payload data))) = []
   \<and> map_option fst (stream_response st env cs clk (strip (ws_text data))
        (ws_request_provider st data) (ws_api_key data) (ws_request_session_id clk data))
       = Some None"
proof -
  let ?p = "normalize_provider st (ws_request_provider st data)"
  from stream_response_success [OF producer store, of clk "ws_request_session_id clk data"]
  obtain cs1 where r: "stream_response st env cs clk (strip (ws_text data))
        (ws_request_provider st data) (ws_api_key data) (ws_request_session_id clk data)
        = Some (None, cs1)"
    and ev: "sent cs1 = sent cs @ Start ?p # map Token chunks @ [Done ?p]" by blast
  have rc: "receive st env cs clk (Payload data) = Some cs1"
    using valid r by (rule receive_streams)
  have em: "emitted cs (receive st env cs clk (Payload data))
      = Start ?p # map Token chunks @ [Done ?p]"
    unfolding rc using ev by (rule emitted_append)
  have c1: "receive st env cs clk (Payload data) \<noteq> None" by (simp add: rc)
  have c3: "chunks = [''Hel'', ''lo'', '' wor'', ''ld''] \<longrightarrow>
        emitted cs (receive st env cs clk (Payload data))
          = [Start ?p, Token ''Hel'', Token ''lo'', Token '' wor'', Token ''ld'', Done ?p]"
    by (simp add: em)
  have c4: "filter is_error (emitted cs (receive st env cs clk (Payload data))) = []"
    by (simp add: em filter_tokens)
  have c5: "map_option fst (stream_response st env cs clk (strip (ws_text data))
        (ws_request_provider st data) (ws_api_key data) (ws_request_session_id clk data))
       = Some None"
    by (simp add: r)
  show ?thesis
    by (intro conjI) (rule c1 em c3 c4 c5)+
qed

lemma example_ws_valid: "strip (ws_text example_ws_request) = ''I feel sad today''"
  by (simp add: example_ws_request_def strip_def is_space_def)

lemma example_ws_store: "0 \<le> max_messages (conv_store consumer_state_init)"
  by (simp add: consumer_state_init_def conversation_store_default_def
      ConversationStore_init_def)

theorem stream_success_events_witness:
  "strip (ws_text example_ws_request) \<noteq> []
   \<and> get_llm_streaming_response settings_without_key example_env
        (strip (ws_text example_ws_request))
        (normalize_provider settings_without_key
           (ws_request_provider settings_without_key example_ws_request))
        (select_api_key settings_without_key (ws_api_key example_ws_request))
       = ([''Hel'', ''lo'', '' wor'', ''ld''], None)
   \<and> emitted consumer_state_init
        (receive settings_without_key example_env consumer_state_init example_stream_clock
           (Payload example_ws_request))
       = [Start ''gemini'', Token ''Hel'', Token ''lo'', Token '' wor'', Token ''ld'',
          Done ''gemini'']"
proof -
  have valid: "strip (ws_text example_ws_request) \<noteq> []" by (simp add: example_ws_valid)
  have prov: "normalize_provider settings_without_key
           (ws_request_provider settings_without_key example_ws_request) = ''gemini''"
    by (simp add: normalize_provider_def ws_request_provider_def settings_without_key_def
        example_ws_request_def lower_def lower_char_def)
  have producer: "get_llm_streaming_response settings_without_key example_env
        (strip (ws_text example_ws_request))
        (normalize_provider settings_without_key
           (ws_request_provider settings_without_key example_ws_request))
        (select_api_key settings_without_key (ws_api_key example_ws_request))
       = ([''Hel'', ''lo'', '' wor'', ''ld''], None)"
    unfolding prov
    by (simp add: get_llm_streaming_response_def get_gemini_streaming_response_def
        normalize_provider_def lower_def lower_char_def example_env_def)
  from stream_success_events [OF valid producer example_ws_store, of example_stream_clock,
      THEN conjunct2, THEN conjunct2, THEN conjunct1, rule_format, OF refl, unfolded prov]
  have "emitted consumer_state_init
        (receive settings_without_key example_env consumer_state_init example_stream_clock
           (Payload example_ws_request))
       = [Start ''gemini'', Token ''Hel'', Token ''lo'', Token '' wor'', Token ''ld'',
          Done ''gemini'']" .
  with valid producer show ?thesis by (intro conjI)
qed

text \<open>
  C4: a well-formed request whose streaming responder raises, before or after some
  fragments, is answered from the canned responder: the events sent are the provider's
  \<open>start\<close>, a \<open>token\<close> for each fragment produced before the failure, the fallback's
  \<open>start\<close>, the paced tokens of the canned response, and one \<open>done\<close> tagged \<^verbatim>\<open>fallback\<close>,
  which is the last event. There is exactly one \<open>done\<close> event, no \<open>error\<close> event, and there
  are two \<open>start\<close> events. The conversation store is one whose \<open>max_messages\<close> is not
  negative, as the global store's is.
\<close>

theorem stream_failure_falls_back:
  assumes valid: "strip (ws_text data) \<noteq> []"
    and producer: "get_llm_streaming_response st env (strip (ws_text data))
                     (normalize_provider st (ws_request_provider st data))
                     (select_api_key st (ws_api_key data)) = (chunks, Some e)"
    and store: "0 \<le> max_messages (conv_store cs)"
  shows "receive st env cs clk (Payload data) \<noteq> None
   \<and> emitted cs (receive st env cs clk (Payload data))
       = Start (normalize_provider st (ws_request_provider st data)) # map Token chunks
           @ Start ''fallback''
           # map Token (paced_tokens (split_on_space
                (get_fallback_response env (strip (ws_text data)))))
           @ [Done ''fallback'']
   \<and> filter is_done (emitted cs (receive st env cs clk (Payload data))) = [Done ''fallback'']
   \<and> last (emitted cs (receive st env cs clk (Payload data))) = Done ''fallback''
   \<and> filter is_error (emitted cs (receive st env cs clk (Payload data))) = []
   \<and> length (filter is_start (emitted cs (receive st env cs clk (Payload data)))) = 2"
proof -
  let ?p = "normalize_provider st (ws_request_provider st data)"
  let ?tokens = "paced_tokens (split_on_space (get_fallback_response env (strip (ws_text data))))"
  from stream_response_failure [OF producer store, of clk "ws_request_session_id clk data"]
  obtain cs1 where r: "stream_response st env cs clk (strip (ws_text data))
        (ws_request_provider st data) (ws_api_key data) (ws_request_session_id clk data)
        = Some (None, cs1)"
    and ev: "sent cs1 = sent cs @ Start ?p # map Token chunks @ Start ''fallback''
                # map Token ?tokens @ [Done ''fallback'']" by blast
  have rc: "receive st env cs clk (Payload data) = Some cs1"
    using valid r by (rule receive_streams)
  have em: "emitted cs (receive st env cs clk (Payload data))
      = Start ?p # map Token chunks @ Start ''fallback'' # map Token ?tokens @ [Done ''fallback'']"
    unfolding rc using ev by (rule emitted_append)
  have c1: "receive st env cs clk (Payload data) \<noteq> None" by (simp add: rc)
  have c3: "filter is_done (emitted cs (receive st env cs clk (Payload data)))
      = [Done ''fallback'']"
    by (simp add: em filter_tokens)
  have c4: "last (emitted cs (receive st env cs clk (Payload data))) = Done ''fallback''"
    by (simp add: em)
  have c5: "filter is_error (emitted cs (receive st env cs clk (Payload data))) = []"
    by (simp add: em filter_tokens)
  have c6: "length (filter is_start (emitted cs (receive st env cs clk (Payload data)))) = 2"
    by (simp add: em filter_tokens)
  show ?thesis
    by (intro conjI) (rule c1 em c3 c4 c5 c6)+
qed

theorem stream_failure_falls_back_witness:
  "strip (ws_text (example_ws_request\<lparr>ws_provider := Some ''local''\<rparr>)) \<noteq> []
   \<and> get_llm_streaming_response settings_without_key example_env
        (strip (ws_text (example_ws_request\<lparr>ws_provider := Some ''local''\<rparr>)))
        (normalize_provider settings_without_key
           (ws_request_provider settings_without_key
              (example_ws_request\<lparr>ws_provider := Some ''local''\<rparr>)))
        (select_api_key settings_without_key
           (ws_api_key (example_ws_request\<lparr>ws_provider := Some ''local''\<rparr>)))
       = ([''Hel''], Some (ProviderError ''connection reset''))
   \<and> take 3 (emitted consumer_state_init
        (receive settings_without_key example_env consumer_state_init example_stream_clock
           (Payload (example_ws_request\<lparr>ws_provider := Some ''local''\<rparr>))))
       = [Start ''local'', Token ''Hel'', Start ''fallback'']
   \<and> filter is_done (emitted consumer_state_init
        (receive settings_without_key example_env consumer_state_init example_stream_clock
           (Payload (example_ws_request\<lparr>ws_provider := Some ''local''\<rparr>))))
       = [Done ''fallback'']
   \<and> length (filter is_start (emitted consumer_state_init
        (receive settings_without_key example_env consumer_state_init example_stream_clock
           (Payload (example_ws_request\<lparr>ws_provider := Some ''local''\<rparr>))))) = 2"
proof -
  let ?data = "example_ws_request\<lparr>ws_provider := Some ''local''\<rparr>"
  have valid: "strip (ws_text ?data) \<noteq> []" using example_ws_valid by simp
  have prov: "normalize_provider settings_without_key
           (ws_request_provider settings_without_key ?data) = ''local''"
    by (simp add: normalize_provider_def ws_request_provider_def lower_def lower_char_def)
  have producer: "get_llm_streaming_response settings_without_key example_env
        (strip (ws_text ?data))
        (normalize_provider settings_without_key (ws_request_provider settings_without_key ?data))
        (select_api_key settings_without_key (ws_api_key ?data))
       = ([''Hel''], Some (ProviderError ''connection reset''))"
    unfolding prov
    by (simp add: get_llm_streaming_response_def get_local_streaming_response_def
        normalize_provider_def lower_def lower_char_def example_env_def)
  note fb = stream_failure_falls_back [OF valid producer example_ws_store,
      of example_stream_clock, unfolded prov]
  from fb [THEN conjunct2, THEN conjunct1]
  have t: "take 3 (emitted consumer_state_init
        (receive settings_without_key example_env consumer_state_init example_stream_clock
           (Payload ?data)))
       = [Start ''local'', Token ''Hel'', Start ''fallback'']"
    by simp
  from valid producer t fb [THEN conjunct2, THEN conjunct2, THEN conjunct1]
    fb [THEN conjunct2, THEN conjunct2, THEN conjunct2, THEN conjunct2, THEN conjunct2]
  show ?thesis by (intro conjI)
qed

end
